theory Spec2Isabelle
  imports Complex_Main "HOL-Library.Word" "HOL-Library.Log_Nat"
begin


section \<open>JavaScript strings\<close>

text \<open>
  A JavaScript string is a sequence of UTF-16 code units and \<open>s.length\<close> counts
  code units, so a string is a list of 16-bit words. \<open>str\<close> embeds an ASCII
  literal.
\<close>

type_synonym jschar = "16 word"
type_synonym jsstring = "jschar list"

definition str :: "string \<Rightarrow> jsstring" where
  "str s = map of_char s"

definition NL :: jschar where
  "NL = 0x0A"

text \<open>
  \<open>String.prototype.trim\<close> removes WhiteSpace and LineTerminator code points from
  both ends; the regular-expression class \<open>\\s\<close> is the same set.
\<close>

definition isWhiteSpace :: "jschar \<Rightarrow> bool" where
  "isWhiteSpace c \<longleftrightarrow>
     c = 0x09 \<or> c = 0x0A \<or> c = 0x0B \<or> c = 0x0C \<or> c = 0x0D \<or> c = 0x20 \<or>
     c = 0xA0 \<or> c = 0x1680 \<or> (0x2000 \<le> c \<and> c \<le> 0x200A) \<or>
     c = 0x2028 \<or> c = 0x2029 \<or> c = 0x202F \<or> c = 0x205F \<or> c = 0x3000 \<or>
     c = 0xFEFF"

definition trim :: "jsstring \<Rightarrow> jsstring" where
  "trim s = rev (dropWhile isWhiteSpace (rev (dropWhile isWhiteSpace s)))"

text \<open>\<open>s.split(sep)\<close> for a one-character separator: \<open>"".split(sep)\<close> is \<open>[""]\<close>.\<close>

fun split_char :: "jschar \<Rightarrow> jsstring \<Rightarrow> jsstring list" where
  "split_char sep [] = [[]]"
| "split_char sep (c # cs) =
     (if c = sep then [] # split_char sep cs
      else (case split_char sep cs of
              [] \<Rightarrow> [[c]]
            | p # ps \<Rightarrow> (c # p) # ps))"

text \<open>\<open>xs.join(sep)\<close> on an array of strings.\<close>

fun join :: "jsstring \<Rightarrow> jsstring list \<Rightarrow> jsstring" where
  "join sep [] = []"
| "join sep [x] = x"
| "join sep (x # y # ys) = x @ sep @ join sep (y # ys)"

text \<open>\<open>s.substring(0, n)\<close> and the general \<open>s.substring(a, b)\<close>, which swaps its
  arguments when \<open>a > b\<close> and clamps both to the length.\<close>

definition substring :: "jsstring \<Rightarrow> nat \<Rightarrow> nat \<Rightarrow> jsstring" where
  "substring s a b = (let lo = min a b; hi = max a b in take (hi - lo) (drop lo s))"

text \<open>Decimal rendering of a non-negative integer, as template literals print it.\<close>

function show_nat :: "nat \<Rightarrow> jsstring" where
  "show_nat n =
     (if n < 10 then [of_nat (48 + n)]
      else show_nat (n div 10) @ [of_nat (48 + n mod 10)])"
  by pat_completeness auto
termination
  by (relation "measure id") auto

declare show_nat.simps [simp del]

text \<open>\<open>s.includes(t)\<close>: \<open>t\<close> occurs in \<open>s\<close> as a contiguous substring.\<close>

fun starts_with :: "jsstring \<Rightarrow> jsstring \<Rightarrow> bool" where
  "starts_with [] s = True"
| "starts_with (t # ts) [] = False"
| "starts_with (t # ts) (c # cs) = (t = c \<and> starts_with ts cs)"

fun str_includes :: "jsstring \<Rightarrow> jsstring \<Rightarrow> bool" where
  "str_includes t [] = (t = [])"
| "str_includes t (c # cs) = (starts_with t (c # cs) \<or> str_includes t cs)"

section \<open>Token budget (aiService.js, enhanced variant)\<close>

text \<open>The constants of \<open>TOKEN_LIMITS\<close>.\<close>

definition maxInputTokens :: nat where "maxInputTokens = 8000"
definition maxPromptTokens :: nat where "maxPromptTokens = 1500"
definition safeTextLimit :: nat where "safeTextLimit = 6000"
definition chunkOverlap :: nat where "chunkOverlap = 200"
definition summaryTokens :: nat where "summaryTokens = 1000"

text \<open>\<open>estimateTokens(text) = Math.ceil(text.length / 4)\<close>.\<close>

definition estimateTokens :: "jsstring \<Rightarrow> nat" where
  "estimateTokens text = (length text + 3) div 4"

subsection \<open>chunkText\<close>

text \<open>
  \<open>text.split(/[.!?]+/)\<close>: the pieces between maximal runs of sentence
  terminators, empty leading and trailing pieces included.
\<close>

definition isTerminator :: "jschar \<Rightarrow> bool" where
  "isTerminator c \<longleftrightarrow> c = 0x2E \<or> c = 0x21 \<or> c = 0x3F"

function split_sentences :: "jsstring \<Rightarrow> jsstring list" where
  "split_sentences [] = [[]]"
| "split_sentences (c # cs) =
     (if isTerminator c then [] # split_sentences (dropWhile isTerminator cs)
      else (case split_sentences cs of
              [] \<Rightarrow> [[c]]
            | p # ps \<Rightarrow> (c # p) # ps))"
  by pat_completeness auto
termination
  by (relation "measure length") (auto simp: length_dropWhile_le less_Suc_eq_le)

text \<open>
  The loop of \<open>chunkText\<close> over the sentences, with the array \<open>chunks\<close> and the
  string \<open>currentChunk\<close> as loop state, and the final push after the loop.
\<close>

fun chunkLoop :: "nat \<Rightarrow> jsstring list \<Rightarrow> jsstring list \<Rightarrow> jsstring \<Rightarrow> jsstring list \<times> jsstring" where
  "chunkLoop maxChunkSize [] chunks currentChunk = (chunks, currentChunk)"
| "chunkLoop maxChunkSize (sentence # rest) chunks currentChunk =
     (if length (currentChunk @ sentence) > maxChunkSize \<and> length currentChunk > 0
      then chunkLoop maxChunkSize rest (chunks @ [trim currentChunk]) sentence
      else chunkLoop maxChunkSize rest chunks (currentChunk @ sentence @ str ''. ''))"

definition chunkText :: "jsstring \<Rightarrow> nat \<Rightarrow> jsstring list" where
  "chunkText text maxChunkSize =
     (let sentences = filter (\<lambda>s. length (trim s) > 0) (split_sentences text);
          (chunks, currentChunk) = chunkLoop maxChunkSize sentences [] []
      in if length (trim currentChunk) > 0 then chunks @ [trim currentChunk] else chunks)"

subsection \<open>extractNumericalContent\<close>

text \<open>
  \<open>containsNumericalData\<close> tests a line against ten regular expressions. The test
  is a parameter \<open>isNum\<close> of the model, so every theorem below holds for any
  line test, the source's included.
\<close>

definition extractNumericalContent :: "(jsstring \<Rightarrow> bool) \<Rightarrow> jsstring \<Rightarrow> jsstring" where
  "extractNumericalContent isNum text =
     join [NL] (map trim (filter isNum (split_char NL text)))"

text \<open>
  Nine of the ten patterns of \<open>containsNumericalData\<close> need an ASCII digit, the third
  (\<open>\\d{1,3}(,\\d{3})*\<close>) matches as soon as the line has one digit, and the first
  (\<open>\\$[\\d,]+\\.?\\d*\<close>) also matches a dollar sign followed by a comma. The
  disjunction of the ten tests is therefore: the line has a digit, or it contains
  \<open>$,\<close>.
\<close>

definition isDigit :: "jschar \<Rightarrow> bool" where
  "isDigit c \<longleftrightarrow> 0x30 \<le> c \<and> c \<le> 0x39"

definition containsNumericalData :: "jsstring \<Rightarrow> bool" where
  "containsNumericalData line \<longleftrightarrow> list_ex isDigit line \<or> str_includes (str ''$,'') line"

subsection \<open>selectBestChunks\<close>

text \<open>
  A scored chunk \<open>{content, score}\<close>. \<open>scoreChunkForDashboardData\<close> counts
  regular-expression matches; it is the parameter \<open>score\<close>, a non-negative integer.
\<close>

record chunk =
  content :: jsstring
  score :: nat

text \<open>
  \<open>chunks.map(...).sort((a, b) => b.score - a.score)\<close>: a stable sort, descending by
  score.
\<close>

definition scoreChunks :: "(jsstring \<Rightarrow> nat) \<Rightarrow> jsstring list \<Rightarrow> chunk list" where
  "scoreChunks scoreFn chunks =
     sort_key (\<lambda>c. - int (score c)) (map (\<lambda>c. \<lparr>content = c, score = scoreFn c\<rparr>) chunks)"

text \<open>
  The greedy loop: \<open>selectedContent\<close> and \<open>totalTokens\<close> are the loop state, and
  the first chunk that does not fit ends the loop (\<open>break\<close>).
\<close>

fun selectLoop :: "chunk list \<Rightarrow> jsstring \<Rightarrow> nat \<Rightarrow> jsstring \<times> nat" where
  "selectLoop [] selectedContent totalTokens = (selectedContent, totalTokens)"
| "selectLoop (c # rest) selectedContent totalTokens =
     (let chunkTokens = estimateTokens (content c)
      in if totalTokens + chunkTokens \<le> safeTextLimit
         then selectLoop rest (selectedContent @ content c @ [NL, NL]) (totalTokens + chunkTokens)
         else (selectedContent, totalTokens))"

definition selectBestChunks :: "(jsstring \<Rightarrow> nat) \<Rightarrow> jsstring \<Rightarrow> jsstring" where
  "selectBestChunks scoreFn text =
     fst (selectLoop (scoreChunks scoreFn (chunkText text 4000)) [] 0)"

subsection \<open>callAI\<close>

text \<open>
  The body posted to the chat-completions endpoint. Endpoint, model identifier and
  credential are process constants and are left out of the request.
\<close>

record request =
  req_content :: jsstring
  req_max_tokens :: nat
  req_temperature :: rat

text \<open>
  What \<open>axios.post\<close> can do. It resolves with a body, of which the code reads
  \<open>response.data.choices[0]?.message?.content\<close>: either the read of \<open>choices[0]\<close>
  throws a TypeError (\<open>Malformed\<close>, with the engine's message), or \<open>choices\<close> is an
  array whose entries carry a content or not. Or it rejects with an error object, of
  which the code reads \<open>response\<close> (status and \<open>data?.error?.message\<close>),
  \<open>request\<close> and \<open>message\<close>.
\<close>

datatype response_body = Malformed jsstring | Choices "jsstring option list"

record axios_error =
  ae_response :: "(nat \<times> jsstring option) option"
  ae_request :: bool
  ae_message :: jsstring

datatype axios_outcome = Resolved response_body | Rejected axios_error

text \<open>
  A value caught by the \<open>catch\<close> block of \<open>callAI\<close>: an \<open>Error\<close> thrown by the
  \<open>try\<close> block itself, which has neither \<open>response\<close> nor \<open>request\<close>, or the
  error object of axios. An error leaving a function is \<open>Error message\<close>.
\<close>

datatype thrown = Plain jsstring | Axios axios_error

datatype jserror = Error jsstring

definition callAI_catch :: "thrown \<Rightarrow> jserror" where
  "callAI_catch err =
     (case err of
        Plain m \<Rightarrow> Error (str ''AI request failed: '' @ m)
      | Axios e \<Rightarrow>
          (case ae_response e of
             Some (status, msg) \<Rightarrow>
               if status = 400 \<and> (case msg of Some m \<Rightarrow> str_includes (str ''token'') m | None \<Rightarrow> False)
               then Error (str ''Text too long for AI processing. Document contains too much content.'')
               else Error (str ''AI API error: '' @ show_nat status @ str '' - '' @
                      (case msg of Some m \<Rightarrow> if m = [] then str ''Unknown error'' else m
                                 | None \<Rightarrow> str ''Unknown error''))
           | None \<Rightarrow>
               if ae_request e then Error (str ''Network error: Could not reach AI service'')
               else Error (str ''AI request failed: '' @ ae_message e)))"

text \<open>
  \<open>callAI(prompt, maxTokens, temperature)\<close>. The network is the parameter \<open>post\<close>;
  the list of requests issued so far is threaded through as state, so that a call
  which reaches the network appends its request. The result is the content string,
  \<open>None\<close> for \<open>undefined\<close>.
\<close>

definition callAI ::
  "(request \<Rightarrow> axios_outcome) \<Rightarrow> jsstring \<Rightarrow> nat \<Rightarrow> rat \<Rightarrow> request list
     \<Rightarrow> (jserror + jsstring option) \<times> request list" where
  "callAI post prompt maxTokens temperature issued =
     (let promptTokens = estimateTokens prompt
      in if promptTokens > maxInputTokens
         then (Inl (callAI_catch (Plain (str ''Prompt too large: '' @ show_nat promptTokens @
                 str '' tokens (max: '' @ show_nat maxInputTokens @ str '')''))), issued)
         else
           (let req = \<lparr>req_content = prompt, req_max_tokens = maxTokens,
                       req_temperature = temperature\<rparr>
            in (case post req of
                  Resolved (Choices cs) \<Rightarrow> Inr (case cs of [] \<Rightarrow> None | c # _ \<Rightarrow> c)
                | Resolved (Malformed m) \<Rightarrow> Inl (callAI_catch (Plain m))
                | Rejected e \<Rightarrow> Inl (callAI_catch (Axios e)),
                issued @ [req])))"

subsection \<open>summarizePreservingData and preprocessLargeText\<close>

definition QUOTES :: jsstring where
  "QUOTES = [0x22, 0x22, 0x22]"

definition summaryPrompt :: "jsstring \<Rightarrow> jsstring" where
  "summaryPrompt text =
     str ''Summarize this text while preserving ALL numerical data, tables, charts, financial information, and statistics. Keep exact numbers, percentages, dates, and quantitative information intact.''
     @ [NL, NL] @ str ''Text to summarize:'' @ [NL] @ QUOTES @ [NL]
     @ substring text 0 6000 @ [NL] @ QUOTES @ [NL, NL]
     @ str ''Requirements:'' @ [NL]
     @ str ''- Preserve all numbers, percentages, financial data'' @ [NL]
     @ str ''- Keep table structures and data relationships'' @ [NL]
     @ str ''- Maintain dates and time periods'' @ [NL]
     @ str ''- Remove only descriptive text and explanations'' @ [NL]
     @ str ''- Output should be concise but data-complete'' @ [NL, NL]
     @ str ''Provide the summary in plain text format.''"

text \<open>
  The tag names the \<open>return\<close> statement of \<open>preprocessLargeText\<close> that produced the
  content: the text as it is, the numerical lines, the model's summary, or the best
  chunks.
\<close>

datatype strategy = AsIs | NumericFilter | AiSummarize | BestChunks

text \<open>
  \<open>summarizePreservingData\<close>: an error of \<open>callAI\<close>, and the TypeError of
  \<open>response.length\<close> on an undefined content, are caught and answered with
  \<open>selectBestChunks\<close> on the same text.
\<close>

definition summarizePreservingData ::
  "(request \<Rightarrow> axios_outcome) \<Rightarrow> (jsstring \<Rightarrow> nat) \<Rightarrow> jsstring \<Rightarrow> request list
     \<Rightarrow> (strategy \<times> jsstring) \<times> request list" where
  "summarizePreservingData post scoreFn text issued =
     (case callAI post (summaryPrompt text) 1500 (1 / 10) issued of
        (Inr (Some response), issued') \<Rightarrow> ((AiSummarize, response), issued')
      | (Inr None, issued') \<Rightarrow> ((BestChunks, selectBestChunks scoreFn text), issued')
      | (Inl e, issued') \<Rightarrow> ((BestChunks, selectBestChunks scoreFn text), issued'))"

definition preprocessLargeText ::
  "(request \<Rightarrow> axios_outcome) \<Rightarrow> (jsstring \<Rightarrow> bool) \<Rightarrow> (jsstring \<Rightarrow> nat) \<Rightarrow> jsstring
     \<Rightarrow> request list \<Rightarrow> (strategy \<times> jsstring) \<times> request list" where
  "preprocessLargeText post isNum scoreFn text issued =
     (let tokenCount = estimateTokens text
      in if tokenCount \<le> safeTextLimit then ((AsIs, text), issued)
         else
           (let numericalContent = extractNumericalContent isNum text
            in if length numericalContent > 0 \<and> estimateTokens numericalContent \<le> safeTextLimit
               then ((NumericFilter, numericalContent), issued)
               else if length numericalContent > 0
               then summarizePreservingData post scoreFn numericalContent issued
               else ((BestChunks, selectBestChunks scoreFn text), issued)))"

section \<open>Example texts and collaborators\<close>

text \<open>
  Texts over the budget of 6000 tokens: 24001 digits on one line, 24001 letters on one
  line, and seven sentences of 3999 letters, each ended by a full stop. \<open>sixChunks\<close>
  is the first six sentences as \<open>selectBestChunks\<close> joins them.
\<close>

definition longDigits :: jsstring where
  "longDigits = replicate 24001 0x37"

definition longLetters :: jsstring where
  "longLetters = replicate 24001 0x61"

definition longSentence :: jsstring where
  "longSentence = replicate 3999 0x61"

definition sevenSentences :: jsstring where
  "sevenSentences = concat (replicate 7 (longSentence @ [0x2E]))"

definition sixChunks :: jsstring where
  "sixChunks =
     longSentence @ [0x2E, NL, NL] @ longSentence @ [NL, NL] @ longSentence @ [NL, NL] @
     longSentence @ [NL, NL] @ longSentence @ [NL, NL] @ longSentence @ [NL, NL]"

text \<open>
  A network that answers every request with the content \<open>ok\<close>, a network that
  cannot be reached, and a chunk score that is always \<open>0\<close>.
\<close>

definition okResponder :: "request \<Rightarrow> axios_outcome" where
  "okResponder req = Resolved (Choices [Some (str ''ok'')])"

definition unreachableNetwork :: "request \<Rightarrow> axios_outcome" where
  "unreachableNetwork req = Rejected \<lparr>ae_response = None, ae_request = True, ae_message = []\<rparr>"

definition noScore :: "jsstring \<Rightarrow> nat" where
  "noScore c = 0"


section \<open>JavaScript numbers and values\<close>

text \<open>
  A number is an IEEE-754 double: a finite value, negative zero, an infinity or NaN.
  A finite value other than negative zero is given by the rational number that it
  denotes, and \<open>Fin 0\<close> is positive zero. The result of an arithmetic operation,
  and the value of a numeric literal, is the exact result rounded to the nearest
  double, a tie to the double with an even significand (\<open>toDouble\<close>).
\<close>

datatype jsnum = Fin rat | NegZero | PInf | NInf | NaN

text \<open>
  \<open>floorLog b a\<close> is the integer \<open>e\<close> with \<open>b^e \<le> a < b^(e+1)\<close>, for a positive
  \<open>a\<close> and a base \<open>b\<close> of at least two.
\<close>

definition floorLog :: "nat \<Rightarrow> rat \<Rightarrow> int" where
  "floorLog b a =
     (if 1 \<le> a then int (floorlog b (nat \<lfloor>a\<rfloor>)) - 1
      else - int (floorlog b (nat (\<lceil>1 / a\<rceil> - 1))))"

definition roundHalfEven :: "rat \<Rightarrow> int" where
  "roundHalfEven r =
     (let f = \<lfloor>r\<rfloor>; d = r - of_int f
      in if d < 1 / 2 then f else if 1 / 2 < d then f + 1 else if even f then f else f + 1)"

text \<open>
  The distance between the doubles around a positive \<open>a\<close>: a significand of 53 bits,
  and the exponent of the subnormal numbers below \<open>2^-1022\<close>.
\<close>

definition ulp :: "rat \<Rightarrow> rat" where
  "ulp a = 2 powi (max (floorLog 2 a) (- 1022) - 52)"

definition roundMagnitude :: "rat \<Rightarrow> rat" where
  "roundMagnitude a = (if a = 0 then 0 else of_int (roundHalfEven (a / ulp a)) * ulp a)"

text \<open>
  The double nearest to a rational. A magnitude that rounds to \<open>2^1024\<close> overflows
  to an infinity; a non-zero magnitude that rounds to zero keeps its sign.
\<close>

definition toDouble :: "rat \<Rightarrow> jsnum" where
  "toDouble q =
     (let m = roundMagnitude \<bar>q\<bar>
      in if 2 ^ 1024 \<le> m then (if q < 0 then NInf else PInf)
         else if m = 0 then (if q < 0 then NegZero else Fin 0)
         else Fin (if q < 0 then - m else m))"

text \<open>
  Every finite double is an integer multiple of the smallest positive double,
  \<open>2^-1074\<close>.
\<close>

definition gridUnit :: rat where
  "gridUnit = 2 powi (- 1074)"

definition onGrid :: "rat \<Rightarrow> bool" where
  "onGrid q \<longleftrightarrow> (\<exists>z::int. q = of_int z * gridUnit)"

definition numOnGrid :: "jsnum \<Rightarrow> bool" where
  "numOnGrid v = (case v of Fin r \<Rightarrow> onGrid r | _ \<Rightarrow> True)"

text \<open>\<open>x + y\<close>. The sum of two zeros is negative only when both are.\<close>

fun num_add :: "jsnum \<Rightarrow> jsnum \<Rightarrow> jsnum" where
  "num_add NaN y = NaN"
| "num_add x NaN = NaN"
| "num_add PInf NInf = NaN"
| "num_add NInf PInf = NaN"
| "num_add PInf y = PInf"
| "num_add x PInf = PInf"
| "num_add NInf y = NInf"
| "num_add x NInf = NInf"
| "num_add NegZero NegZero = NegZero"
| "num_add NegZero (Fin b) = toDouble b"
| "num_add (Fin a) NegZero = toDouble a"
| "num_add (Fin a) (Fin b) = toDouble (a + b)"

fun num_neg :: "jsnum \<Rightarrow> jsnum" where
  "num_neg (Fin a) = (if a = 0 then NegZero else Fin (- a))"
| "num_neg NegZero = Fin 0"
| "num_neg PInf = NInf"
| "num_neg NInf = PInf"
| "num_neg NaN = NaN"

definition num_sub :: "jsnum \<Rightarrow> jsnum \<Rightarrow> jsnum" where
  "num_sub x y = num_add x (num_neg y)"

text \<open>
  \<open>x / d\<close> for a divisor \<open>d > 0\<close> that is a double; the source divides by a
  positive count and by the constants 100, 1000 and 1000000 only.
\<close>

fun num_div_pos :: "jsnum \<Rightarrow> rat \<Rightarrow> jsnum" where
  "num_div_pos (Fin a) d = toDouble (a / d)"
| "num_div_pos NegZero d = NegZero"
| "num_div_pos PInf d = PInf"
| "num_div_pos NInf d = NInf"
| "num_div_pos NaN d = NaN"

text \<open>\<open>x < y\<close> on numbers: false as soon as one side is NaN; the two zeros are equal.\<close>

fun num_less :: "jsnum \<Rightarrow> jsnum \<Rightarrow> bool" where
  "num_less NaN y = False"
| "num_less x NaN = False"
| "num_less x NInf = False"
| "num_less PInf y = False"
| "num_less NInf y = True"
| "num_less x PInf = True"
| "num_less NegZero NegZero = False"
| "num_less NegZero (Fin b) = (0 < b)"
| "num_less (Fin a) NegZero = (a < 0)"
| "num_less (Fin a) (Fin b) = (a < b)"

fun isNaN :: "jsnum \<Rightarrow> bool" where
  "isNaN NaN = True"
| "isNaN x = False"

fun isFinite :: "jsnum \<Rightarrow> bool" where
  "isFinite (Fin a) = True"
| "isFinite NegZero = True"
| "isFinite x = False"

text \<open>\<open>x >= y\<close>.\<close>

definition num_ge :: "jsnum \<Rightarrow> jsnum \<Rightarrow> bool" where
  "num_ge x y \<longleftrightarrow> \<not> isNaN x \<and> \<not> isNaN y \<and> \<not> num_less x y"

text \<open>
  \<open>Math.max(...values)\<close> and \<open>Math.min(...values)\<close>; positive zero counts as
  larger than negative zero.
\<close>

definition max2 :: "jsnum \<Rightarrow> jsnum \<Rightarrow> jsnum" where
  "max2 x y =
     (if isNaN x \<or> isNaN y then NaN
      else if num_less x y then y
      else if num_less y x then x
      else if x = NegZero then y else x)"

definition min2 :: "jsnum \<Rightarrow> jsnum \<Rightarrow> jsnum" where
  "min2 x y =
     (if isNaN x \<or> isNaN y then NaN
      else if num_less y x then y
      else if num_less x y then x
      else if y = NegZero then y else x)"

definition Math_max :: "jsnum list \<Rightarrow> jsnum" where
  "Math_max values = foldl max2 NInf values"

definition Math_min :: "jsnum list \<Rightarrow> jsnum" where
  "Math_min values = foldl min2 PInf values"

text \<open>The values that \<open>JSON.parse\<close> produces; an object lists its own properties.\<close>

datatype json =
    JNull
  | JBool bool
  | JNum jsnum
  | JStr jsstring
  | JArr "json list"
  | JObj "(jsstring \<times> json) list"

text \<open>
  A record of the dataset is an object, given by its own properties. Reading a
  property that the object does not own finds the members of \<open>Object.prototype\<close>;
  any other name reads as \<open>undefined\<close>.
\<close>

type_synonym obj = "jsstring \<rightharpoonup> json"

definition protoKeys :: "jsstring list" where
  "protoKeys =
     [str ''constructor'', str ''__defineGetter__'', str ''__defineSetter__'',
      str ''hasOwnProperty'', str ''__lookupGetter__'', str ''__lookupSetter__'',
      str ''isPrototypeOf'', str ''propertyIsEnumerable'', str ''toString'',
      str ''valueOf'', str ''__proto__'', str ''toLocaleString'']"

datatype jsvalue = Undefined | Val json | Inherited jsstring

definition getProp :: "obj \<Rightarrow> jsstring \<Rightarrow> jsvalue" where
  "getProp ob k =
     (case ob k of
        Some v \<Rightarrow> Val v
      | None \<Rightarrow> if k \<in> set protoKeys then Inherited k else Undefined)"

text \<open>Truthiness, as \<open>||\<close> and \<open>!\<close> test it.\<close>

fun truthy :: "jsvalue \<Rightarrow> bool" where
  "truthy Undefined = False"
| "truthy (Inherited k) = True"
| "truthy (Val JNull) = False"
| "truthy (Val (JBool b)) = b"
| "truthy (Val (JNum n)) = (n \<noteq> Fin 0 \<and> n \<noteq> NegZero \<and> n \<noteq> NaN)"
| "truthy (Val (JStr s)) = (s \<noteq> [])"
| "truthy (Val (JArr xs)) = True"
| "truthy (Val (JObj kvs)) = True"

subsection \<open>parseFloat\<close>

definition digitsValue :: "jsstring \<Rightarrow> nat" where
  "digitsValue ds = foldl (\<lambda>a c. 10 * a + (unat c - 48)) 0 ds"

text \<open>
  The exponent part \<open>(e|E)[+-]?digits\<close> at the head of a string, if there is one:
  its value and the rest of the string.
\<close>

definition exponentPart :: "jsstring \<Rightarrow> int \<times> jsstring" where
  "exponentPart s =
     (case s of
        [] \<Rightarrow> (0, s)
      | c # r \<Rightarrow>
          if c = 0x65 \<or> c = 0x45 then
            (let (neg, r') = (case r of
                                [] \<Rightarrow> (False, r)
                              | d # r2 \<Rightarrow> if d = 0x2D then (True, r2)
                                          else if d = 0x2B then (False, r2) else (False, r));
                 ds = takeWhile isDigit r'
             in if ds = [] then (0, s)
                else (if neg then - int (digitsValue ds) else int (digitsValue ds),
                      dropWhile isDigit r'))
          else (0, s))"

definition scale10 :: "rat \<Rightarrow> int \<Rightarrow> rat" where
  "scale10 m e = (if 0 \<le> e then m * 10 ^ nat e else m / 10 ^ nat (- e))"

text \<open>
  The longest prefix of a string that is a \<open>StrDecimalLiteral\<close>: an optional sign,
  then \<open>Infinity\<close>, or digits with an optional fraction and exponent. The result is
  the value, which is the double nearest to the decimal number written, and the
  rest of the string, or \<open>None\<close> when no prefix is a literal.
\<close>

definition strDecimalLiteral :: "jsstring \<Rightarrow> (jsnum \<times> jsstring) option" where
  "strDecimalLiteral t =
     (let (neg, u) = (case t of
                        [] \<Rightarrow> (False, t)
                      | c # r \<Rightarrow> if c = 0x2D then (True, r)
                                 else if c = 0x2B then (False, r) else (False, t))
      in if starts_with (str ''Infinity'') u
         then Some (if neg then NInf else PInf, drop 8 u)
         else
           (let ip = takeWhile isDigit u;
                r1 = dropWhile isDigit u;
                (fp, r2) = (case r1 of
                              [] \<Rightarrow> ([], r1)
                            | c # r \<Rightarrow>
                                if c = 0x2E \<and> (ip \<noteq> [] \<or> takeWhile isDigit r \<noteq> [])
                                then (takeWhile isDigit r, dropWhile isDigit r)
                                else ([], r1))
            in if ip = [] \<and> fp = [] then None
               else
                 (let (e, r3) = exponentPart r2;
                      v = scale10 (of_nat (digitsValue (ip @ fp))) (e - int (length fp))
                  in Some (if neg then num_neg (toDouble v) else toDouble v, r3))))"

text \<open>\<open>parseFloat\<close> of a string: leading white space is skipped, what follows the
  literal is ignored.\<close>

definition parseFloatStr :: "jsstring \<Rightarrow> jsnum" where
  "parseFloatStr s =
     (case strDecimalLiteral (dropWhile isWhiteSpace s) of
        None \<Rightarrow> NaN
      | Some (v, rest) \<Rightarrow> v)"

text \<open>
  \<open>parseFloat\<close> of a value converts it to a string first. A number prints and
  parses back to itself, except negative zero, which prints as \<open>0\<close>. \<open>null\<close>,
  booleans and plain objects print as words that are no literal. An array prints
  its elements joined by commas, \<open>null\<close> as the empty string, and a comma ends a
  literal: the result is that of the first element.
\<close>

fun parseFloatJ :: "json \<Rightarrow> jsnum" where
  "parseFloatJ (JNum n) = (if n = NegZero then Fin 0 else n)"
| "parseFloatJ (JStr s) = parseFloatStr s"
| "parseFloatJ (JArr []) = NaN"
| "parseFloatJ (JArr (x # xs)) = parseFloatJ x"
| "parseFloatJ JNull = NaN"
| "parseFloatJ (JBool b) = NaN"
| "parseFloatJ (JObj kvs) = NaN"

text \<open>\<open>undefined\<close> and the functions of the prototype print as words as well.\<close>

fun parseFloat :: "jsvalue \<Rightarrow> jsnum" where
  "parseFloat Undefined = NaN"
| "parseFloat (Inherited k) = NaN"
| "parseFloat (Val v) = parseFloatJ v"


section \<open>Calculator (calculator.js)\<close>

subsection \<open>KPI aggregation\<close>

text \<open>
  \<open>calculateSum\<close>: the \<open>reduce\<close> from \<open>0\<close>, adding \<open>0\<close> for a value that
  \<open>parseFloat\<close> turns into NaN.
\<close>

definition calculateSum :: "obj list \<Rightarrow> jsstring \<Rightarrow> jsnum" where
  "calculateSum data column =
     foldl (\<lambda>sum row.
              (let val = parseFloat (getProp row column)
               in num_add sum (if isNaN val then Fin 0 else val)))
       (Fin 0) data"

definition calculateAverage :: "obj list \<Rightarrow> jsstring \<Rightarrow> jsnum" where
  "calculateAverage data column =
     (let sum = calculateSum data column;
          count = length (filter (\<lambda>row. \<not> isNaN (parseFloat (getProp row column))) data)
      in if count > 0 then num_div_pos sum (of_nat count) else Fin 0)"

text \<open>
  \<open>calculateMax\<close> and \<open>calculateMin\<close>. The argument-count limit of a spread call
  on a very long array is outside this model.
\<close>

definition calculateMax :: "obj list \<Rightarrow> jsstring \<Rightarrow> jsnum" where
  "calculateMax data column =
     (let values = filter (\<lambda>val. \<not> isNaN val) (map (\<lambda>row. parseFloat (getProp row column)) data)
      in if length values > 0 then Math_max values else Fin 0)"

definition calculateMin :: "obj list \<Rightarrow> jsstring \<Rightarrow> jsnum" where
  "calculateMin data column =
     (let values = filter (\<lambda>val. \<not> isNaN val) (map (\<lambda>row. parseFloat (getProp row column)) data)
      in if length values > 0 then Math_min values else Fin 0)"

subsection \<open>formatValue\<close>

text \<open>
  \<open>toLowerCase\<close> on the ASCII letters. The strings compared with it below are ASCII
  words without the letter k, and no character outside ASCII has a lower-case form
  made of these letters only, so the comparisons come out as in the source.
\<close>

definition toLowerCase :: "jsstring \<Rightarrow> jsstring" where
  "toLowerCase s = map (\<lambda>c. if 0x41 \<le> c \<and> c \<le> 0x5A then c + 0x20 else c) s"

text \<open>Rounding a non-negative value to the nearest integer, ties upwards.\<close>

definition roundHalfUp :: "rat \<Rightarrow> nat" where
  "roundHalfUp a = nat \<lfloor>a + 1 / 2\<rfloor>"

definition digit :: "nat \<Rightarrow> jschar" where
  "digit d = of_nat (48 + d)"

definition pad3 :: "nat \<Rightarrow> jsstring" where
  "pad3 m = [digit (m div 100), digit (m div 10 mod 10), digit (m mod 10)]"

text \<open>The digits of an integer in groups of three, as the locale \<open>en-US\<close> prints them.\<close>

function group3 :: "nat \<Rightarrow> jsstring" where
  "group3 n = (if n < 1000 then show_nat n else group3 (n div 1000) @ str '','' @ pad3 (n mod 1000))"
  by pat_completeness auto
termination
  by (relation "measure id") auto

declare group3.simps [simp del]

definition signOf :: "rat \<Rightarrow> jsstring" where
  "signOf x = (if x < 0 then str ''-'' else [])"

text \<open>
  The shortest decimal number that denotes a positive double \<open>a\<close>: the digits that
  \<open>Number::toString\<close> prints. With \<open>k\<close> significant digits the candidates are the
  two decimals around \<open>a\<close>; the first \<open>k\<close> for which one of them rounds to \<open>a\<close>
  is taken, and of two candidates the one nearer to \<open>a\<close>. Seventeen digits
  always suffice.
\<close>

function shortestFrom :: "nat \<Rightarrow> rat \<Rightarrow> rat" where
  "shortestFrom k a =
     (let u = 10 powi (floorLog 10 a + 1 - int k);
          s = \<lfloor>a / u\<rfloor>;
          lo = of_int s * u;
          hi = of_int (s + 1) * u
      in if 17 \<le> k \<or> (toDouble lo = Fin a \<and> toDouble hi = Fin a)
         then (if a - lo < hi - a then lo
               else if hi - a < a - lo then hi
               else if even s then lo else hi)
         else if toDouble lo = Fin a then lo
         else if toDouble hi = Fin a then hi
         else shortestFrom (Suc k) a)"
  by pat_completeness auto
termination
  by (relation "measure (\<lambda>(k, a). 17 - k)") auto

declare shortestFrom.simps [simp del]

definition shortestDecimal :: "rat \<Rightarrow> rat" where
  "shortestDecimal a = (if a = 0 then 0 else shortestFrom 1 a)"

text \<open>
  The formatters of \<open>Intl.NumberFormat\<close> round the shortest decimal of the magnitude
  to the number of fraction digits, a tie away from zero. \<open>intlRound f a\<close> is the
  rounded magnitude in units of \<open>10^-f\<close>. The sign is printed for every negative
  number and for negative zero, also when the digits are all zero.
\<close>

definition intlRound :: "nat \<Rightarrow> rat \<Rightarrow> nat" where
  "intlRound f a = roundHalfUp (shortestDecimal a * 10 ^ f)"

definition INFINITY_SIGN :: jsstring where
  "INFINITY_SIGN = [0x221E]"

text \<open>
  \<open>Intl.NumberFormat('en-US', {style: 'currency', currency: 'USD'})\<close> with no
  fraction digits.
\<close>

definition formatCurrency :: "jsnum \<Rightarrow> jsstring" where
  "formatCurrency v =
     (case v of
        Fin x \<Rightarrow> signOf x @ str ''$'' @ group3 (intlRound 0 \<bar>x\<bar>)
      | NegZero \<Rightarrow> str ''-$0''
      | PInf \<Rightarrow> str ''$'' @ INFINITY_SIGN
      | NInf \<Rightarrow> str ''-$'' @ INFINITY_SIGN
      | NaN \<Rightarrow> str ''$NaN'')"

text \<open>
  \<open>Intl.NumberFormat('en-US', {style: 'percent'})\<close> with exactly one fraction digit,
  applied to \<open>y\<close>: it prints \<open>100 * y\<close>.
\<close>

definition percentDigits :: "nat \<Rightarrow> jsstring" where
  "percentDigits n = group3 (n div 10) @ str ''.'' @ [digit (n mod 10)] @ str ''%''"

definition formatPercent :: "jsnum \<Rightarrow> jsstring" where
  "formatPercent v =
     (case v of
        Fin y \<Rightarrow> signOf y @ percentDigits (intlRound 3 \<bar>y\<bar>)
      | NegZero \<Rightarrow> str ''-'' @ percentDigits 0
      | PInf \<Rightarrow> INFINITY_SIGN @ str ''%''
      | NInf \<Rightarrow> str ''-'' @ INFINITY_SIGN @ str ''%''
      | NaN \<Rightarrow> str ''NaN'')"

text \<open>
  \<open>value.toLocaleString()\<close> in the locale \<open>en-US\<close>, the locale of the two formatters
  above: grouped integer digits and at most three fraction digits, trailing zeros
  dropped.
\<close>

definition localeDigits :: "nat \<Rightarrow> jsstring" where
  "localeDigits n =
     (let frac = rev (dropWhile (\<lambda>c. c = 0x30) (rev (pad3 (n mod 1000))))
      in group3 (n div 1000) @ (if frac = [] then [] else str ''.'' @ frac))"

definition toLocaleString :: "jsnum \<Rightarrow> jsstring" where
  "toLocaleString v =
     (case v of
        Fin x \<Rightarrow> signOf x @ localeDigits (intlRound 3 \<bar>x\<bar>)
      | NegZero \<Rightarrow> str ''-0''
      | PInf \<Rightarrow> INFINITY_SIGN
      | NInf \<Rightarrow> str ''-'' @ INFINITY_SIGN
      | NaN \<Rightarrow> str ''NaN'')"

text \<open>
  \<open>x.toFixed(1)\<close>: the digits of the integer nearest to ten times the exact value
  of the double, the larger one on a tie. From \<open>10^21\<close> on, and for NaN and the
  infinities, it is \<open>Number::toString\<close>, which is the parameter \<open>numToString\<close>
  wherever the model needs it.
\<close>

definition toFixed1 :: "(jsnum \<Rightarrow> jsstring) \<Rightarrow> jsnum \<Rightarrow> jsstring" where
  "toFixed1 numToString v =
     (case v of
        Fin x \<Rightarrow>
          if 10 ^ 21 \<le> \<bar>x\<bar> then signOf x @ numToString (Fin \<bar>x\<bar>)
          else (let n = roundHalfUp (\<bar>x\<bar> * 10)
                in signOf x @ show_nat (n div 10) @ str ''.'' @ [digit (n mod 10)])
      | NegZero \<Rightarrow> str ''0.0''
      | PInf \<Rightarrow> numToString PInf
      | NInf \<Rightarrow> numToString NInf
      | NaN \<Rightarrow> numToString NaN)"

definition formatValue :: "(jsnum \<Rightarrow> jsstring) \<Rightarrow> jsnum \<Rightarrow> jsstring option \<Rightarrow> jsstring" where
  "formatValue numToString v fmt =
     (if isNaN v \<or> \<not> isFinite v then str ''0''
      else
        (let f = map_option toLowerCase fmt
         in if f = Some (str ''currency'') then formatCurrency v
            else if f = Some (str ''percent'') then formatPercent (num_div_pos v 100)
            else if num_ge v (Fin 1000000)
            then toFixed1 numToString (num_div_pos v 1000000) @ str ''M''
            else if num_ge v (Fin 1000)
            then toFixed1 numToString (num_div_pos v 1000) @ str ''K''
            else toLocaleString v))"

subsection \<open>calculateSingleKPI\<close>

record kpiDefinition =
  name :: jsstring
  calculation :: jsstring
  column :: jsstring
  format :: "jsstring option"

record computedKPI = kpiDefinition +
  kpi_value :: jsnum
  formattedValue :: jsstring

text \<open>The \<open>switch\<close> on the calculation; \<open>None\<close> is the \<open>null\<close> of the default case.\<close>

definition kpiValue :: "obj list \<Rightarrow> kpiDefinition \<Rightarrow> jsnum option" where
  "kpiValue data def =
     (let c = toLowerCase (calculation def)
      in if c = str ''sum'' then Some (calculateSum data (column def))
         else if c = str ''avg'' \<or> c = str ''average'' then Some (calculateAverage data (column def))
         else if c = str ''count'' then Some (Fin (of_nat (length data)))
         else if c = str ''max'' then Some (calculateMax data (column def))
         else if c = str ''min'' then Some (calculateMin data (column def))
         else None)"

definition calculateSingleKPI ::
  "(jsnum \<Rightarrow> jsstring) \<Rightarrow> obj list \<Rightarrow> kpiDefinition \<Rightarrow> computedKPI option" where
  "calculateSingleKPI numToString data def =
     (case kpiValue data def of
        None \<Rightarrow> None
      | Some v \<Rightarrow>
          Some \<lparr>name = name def, calculation = calculation def, column = column def,
                format = format def, kpi_value = v,
                formattedValue = formatValue numToString v (format def)\<rparr>)"


subsection \<open>Conversions of values\<close>

text \<open>
  \<open>ToString\<close> of a value, which makes a property key of it. \<open>numToString\<close> is
  \<open>Number::toString\<close>. Of the inherited members, \<open>constructor\<close> is the function
  \<open>Object\<close>, \<open>__proto__\<close> reads as the prototype object, and the others are
  functions of their own name.
\<close>

fun toStringJ :: "(jsnum \<Rightarrow> jsstring) \<Rightarrow> json \<Rightarrow> jsstring" where
  "toStringJ numToString JNull = str ''null''"
| "toStringJ numToString (JBool b) = (if b then str ''true'' else str ''false'')"
| "toStringJ numToString (JNum n) = numToString n"
| "toStringJ numToString (JStr s) = s"
| "toStringJ numToString (JArr xs) =
     join (str '','') (map (\<lambda>x. if x = JNull then [] else toStringJ numToString x) xs)"
| "toStringJ numToString (JObj kvs) = str ''[object Object]''"

fun toStringV :: "(jsnum \<Rightarrow> jsstring) \<Rightarrow> jsvalue \<Rightarrow> jsstring" where
  "toStringV numToString Undefined = str ''undefined''"
| "toStringV numToString (Val v) = toStringJ numToString v"
| "toStringV numToString (Inherited k) =
     (if k = str ''__proto__'' then str ''[object Object]''
      else str ''function '' @ (if k = str ''constructor'' then str ''Object'' else k)
           @ str ''() { [native code] }'')"

text \<open>
  \<open>ToNumber\<close>. A string is trimmed; empty it is \<open>0\<close>, otherwise it must be a
  decimal literal or a binary, octal or hexadecimal integer as a whole. An array
  converts through its string, which is no number once it has a comma.
\<close>

definition radixDigit :: "jschar \<Rightarrow> nat option" where
  "radixDigit c =
     (if 0x30 \<le> c \<and> c \<le> 0x39 then Some (unat c - 48)
      else if 0x61 \<le> c \<and> c \<le> 0x66 then Some (unat c - 87)
      else if 0x41 \<le> c \<and> c \<le> 0x46 then Some (unat c - 55)
      else None)"

definition radixValue :: "nat \<Rightarrow> jsstring \<Rightarrow> nat option" where
  "radixValue b ds =
     (if ds \<noteq> [] \<and> list_all (\<lambda>c. case radixDigit c of Some d \<Rightarrow> d < b | None \<Rightarrow> False) ds
      then Some (foldl (\<lambda>a c. b * a + (case radixDigit c of Some d \<Rightarrow> d | None \<Rightarrow> 0)) 0 ds)
      else None)"

definition nonDecimalLiteral :: "jsstring \<Rightarrow> nat option" where
  "nonDecimalLiteral t =
     (case t of
        z # x # ds \<Rightarrow>
          if z = 0x30 \<and> (x = 0x78 \<or> x = 0x58) then radixValue 16 ds
          else if z = 0x30 \<and> (x = 0x6F \<or> x = 0x4F) then radixValue 8 ds
          else if z = 0x30 \<and> (x = 0x62 \<or> x = 0x42) then radixValue 2 ds
          else None
      | _ \<Rightarrow> None)"

definition toNumberStr :: "jsstring \<Rightarrow> jsnum" where
  "toNumberStr s =
     (let t = trim s
      in if t = [] then Fin 0
         else (case nonDecimalLiteral t of
                 Some n \<Rightarrow> toDouble (of_nat n)
               | None \<Rightarrow>
                   (case strDecimalLiteral t of
                      Some (v, []) \<Rightarrow> v
                    | _ \<Rightarrow> NaN)))"

fun toNumberJ :: "json \<Rightarrow> jsnum" where
  "toNumberJ JNull = Fin 0"
| "toNumberJ (JBool b) = Fin (if b then 1 else 0)"
| "toNumberJ (JNum n) = n"
| "toNumberJ (JStr s) = toNumberStr s"
| "toNumberJ (JArr []) = Fin 0"
| "toNumberJ (JArr [x]) =
     (case x of JBool b \<Rightarrow> NaN | _ \<Rightarrow> toNumberJ x)"
| "toNumberJ (JArr (x # y # zs)) = NaN"
| "toNumberJ (JObj kvs) = NaN"

fun toNumber :: "jsvalue \<Rightarrow> jsnum" where
  "toNumber Undefined = NaN"
| "toNumber (Inherited k) = NaN"
| "toNumber (Val v) = toNumberJ v"

subsection \<open>groupBy\<close>

text \<open>
  The accumulator \<open>groups\<close> starts as \<open>{}\<close>; its own properties are kept in the order
  of their creation. \<open>item[key] || 'Unknown'\<close> is turned into a property key. If
  \<open>groups\<close> owns the key, the item is pushed to its array. If not, \<open>groups[group]\<close>
  reads \<open>undefined\<close> and a new array is created, unless the key names a member of
  \<open>Object.prototype\<close>: then the read is truthy, no array is created, and
  \<open>groups[group].push\<close> is not a function, a TypeError.
\<close>

definition groupKey :: "(jsnum \<Rightarrow> jsstring) \<Rightarrow> obj \<Rightarrow> jsstring \<Rightarrow> jsstring" where
  "groupKey numToString item key =
     (let v = getProp item key
      in toStringV numToString (if truthy v then v else Val (JStr (str ''Unknown''))))"

fun pushTo :: "jsstring \<Rightarrow> obj \<Rightarrow> (jsstring \<times> obj list) list \<Rightarrow> (jsstring \<times> obj list) list" where
  "pushTo k item [] = []"
| "pushTo k item ((k', rows) # gs) =
     (if k' = k then (k', rows @ [item]) # gs else (k', rows) # pushTo k item gs)"

definition groupStep ::
  "(jsnum \<Rightarrow> jsstring) \<Rightarrow> jsstring \<Rightarrow> (jsstring \<times> obj list) list \<Rightarrow> obj
     \<Rightarrow> jserror + (jsstring \<times> obj list) list" where
  "groupStep numToString key groups item =
     (let group = groupKey numToString item key
      in if group \<in> fst ` set groups then Inr (pushTo group item groups)
         else if group \<in> set protoKeys
         then Inl (Error (str ''groups[group].push is not a function''))
         else Inr (groups @ [(group, [item])]))"

fun groupLoop ::
  "(jsnum \<Rightarrow> jsstring) \<Rightarrow> jsstring \<Rightarrow> (jsstring \<times> obj list) list \<Rightarrow> obj list
     \<Rightarrow> jserror + (jsstring \<times> obj list) list" where
  "groupLoop numToString key groups [] = Inr groups"
| "groupLoop numToString key groups (item # rest) =
     (case groupStep numToString key groups item of
        Inl e \<Rightarrow> Inl e
      | Inr groups' \<Rightarrow> groupLoop numToString key groups' rest)"

definition groupBy ::
  "(jsnum \<Rightarrow> jsstring) \<Rightarrow> obj list \<Rightarrow> jsstring \<Rightarrow> jserror + (jsstring \<times> obj list) list" where
  "groupBy numToString data key = groupLoop numToString key [] data"

subsection \<open>prepareChartData\<close>

text \<open>
  \<open>Object.keys\<close> lists the keys that are array indices first, in ascending numeric
  order, and then the other keys in the order of their creation.
\<close>

definition isArrayIndex :: "jsstring \<Rightarrow> bool" where
  "isArrayIndex s \<longleftrightarrow>
     s \<noteq> [] \<and> list_all isDigit s \<and> (s = str ''0'' \<or> hd s \<noteq> 0x30) \<and>
     digitsValue s \<le> 4294967294"

definition objectEntries :: "(jsstring \<times> 'a) list \<Rightarrow> (jsstring \<times> 'a) list" where
  "objectEntries props =
     sort_key (\<lambda>p. digitsValue (fst p)) (filter (\<lambda>p. isArrayIndex (fst p)) props)
     @ filter (\<lambda>p. \<not> isArrayIndex (fst p)) props"

text \<open>
  \<open>dataPoint[measure] = sum\<close>. The assignment of a number to \<open>__proto__\<close> changes
  nothing unless the object owns a property of that name.
\<close>

definition setNumber :: "obj \<Rightarrow> jsstring \<Rightarrow> jsnum \<Rightarrow> obj" where
  "setNumber ob k n =
     (if k = str ''__proto__'' \<and> ob k = None then ob else ob(k \<mapsto> JNum n))"

definition dataPoint :: "jsstring \<Rightarrow> jsstring list \<Rightarrow> jsstring \<times> obj list \<Rightarrow> obj" where
  "dataPoint primaryDimension measureList entry =
     foldl (\<lambda>dp measure. setNumber dp measure (calculateSum (snd entry) measure))
       [primaryDimension \<mapsto> JStr (fst entry)] measureList"

text \<open>
  \<open>chartData.sort((a, b) => (b[primaryMeasure] || 0) - (a[primaryMeasure] || 0))\<close>.
  The sort is stable, and a comparator result of NaN counts as \<open>0\<close>: \<open>a\<close> goes
  before \<open>b\<close> exactly when the difference is negative.
\<close>

definition sortValue :: "jsstring \<Rightarrow> obj \<Rightarrow> jsnum" where
  "sortValue primaryMeasure dp =
     (let v = getProp dp primaryMeasure
      in toNumber (if truthy v then v else Val (JNum (Fin 0))))"

definition goesBefore :: "jsstring \<Rightarrow> obj \<Rightarrow> obj \<Rightarrow> bool" where
  "goesBefore primaryMeasure a b =
     num_less (num_sub (sortValue primaryMeasure b) (sortValue primaryMeasure a)) (Fin 0)"

fun insertStable :: "('a \<Rightarrow> 'a \<Rightarrow> bool) \<Rightarrow> 'a \<Rightarrow> 'a list \<Rightarrow> 'a list" where
  "insertStable precedes x [] = [x]"
| "insertStable precedes x (y # ys) =
     (if precedes y x then y # insertStable precedes x ys else x # y # ys)"

definition stableSort :: "('a \<Rightarrow> 'a \<Rightarrow> bool) \<Rightarrow> 'a list \<Rightarrow> 'a list" where
  "stableSort precedes xs = foldr (insertStable precedes) xs []"

text \<open>
  A chart definition; \<open>measures_list\<close> and \<open>dimensions_list\<close> are its fields
  \<open>measures\<close> and \<open>dimensions\<close>, \<open>None\<close> when the field is missing. Without
  measures or without dimensions the first 20 rows are returned as they are.
\<close>

record chartDefinition =
  title :: jsstring
  chartType :: jsstring
  measures_list :: "jsstring list option"
  dimensions_list :: "jsstring list option"

definition prepareChartData ::
  "(jsnum \<Rightarrow> jsstring) \<Rightarrow> obj list \<Rightarrow> chartDefinition \<Rightarrow> jserror + obj list" where
  "prepareChartData numToString data chartDef =
     (case (measures_list chartDef, dimensions_list chartDef) of
        (Some (primaryMeasure # ms), Some (primaryDimension # ds)) \<Rightarrow>
          (case groupBy numToString data primaryDimension of
             Inl e \<Rightarrow> Inl e
           | Inr grouped \<Rightarrow>
               (let chartData = map (dataPoint primaryDimension (primaryMeasure # ms))
                                  (objectEntries grouped)
                in Inr (take 20 (stableSort (goesBefore primaryMeasure) chartData))))
      | _ \<Rightarrow> Inr (take 20 data))"


subsection \<open>Number::toString on integers\<close>

text \<open>
  The examples instantiate \<open>numToString\<close> with the following function. It is
  \<open>Number::toString\<close> on NaN, on the infinities and on the integers below \<open>10^21\<close>
  in magnitude, the only numbers that the examples print; of another finite value it
  prints the integer part.
\<close>

definition intToString :: "jsnum \<Rightarrow> jsstring" where
  "intToString n =
     (case n of
        Fin x \<Rightarrow> signOf x @ show_nat (nat \<lfloor>\<bar>x\<bar>\<rfloor>)
      | NegZero \<Rightarrow> str ''0''
      | PInf \<Rightarrow> str ''Infinity''
      | NInf \<Rightarrow> str ''-Infinity''
      | NaN \<Rightarrow> str ''NaN'')"

subsection \<open>Example records\<close>


subsection \<open>Example collaborators\<close>

text \<open>A network that answers every request with the content \<open>null\<close>.\<close>

definition nullResponder :: "request \<Rightarrow> axios_outcome" where
  "nullResponder req = Resolved (Choices [Some (str ''null'')])"


section \<open>JSON.parse and JSON.stringify\<close>

subsection \<open>Parsing\<close>

definition isJsonWs :: "jschar \<Rightarrow> bool" where
  "isJsonWs c \<longleftrightarrow> c = 0x20 \<or> c = 0x09 \<or> c = 0x0A \<or> c = 0x0D"

definition skip_ws :: "jsstring \<Rightarrow> jsstring" where
  "skip_ws s = dropWhile isJsonWs s"

text \<open>The character of a one-letter escape \<open>\\"\<close>, \<open>\\\\\<close>, \<open>\\/\<close>, \<open>\\b\<close>, \<open>\\f\<close>,
  \<open>\\n\<close>, \<open>\\r\<close>, \<open>\\t\<close>.\<close>

definition escapeChar :: "jschar \<Rightarrow> jschar option" where
  "escapeChar e =
     (if e = 0x22 then Some 0x22
      else if e = 0x5C then Some 0x5C
      else if e = 0x2F then Some 0x2F
      else if e = 0x62 then Some 0x08
      else if e = 0x66 then Some 0x0C
      else if e = 0x6E then Some 0x0A
      else if e = 0x72 then Some 0x0D
      else if e = 0x74 then Some 0x09
      else None)"

text \<open>The code unit of the four hexadecimal digits of a \<open>\\u\<close> escape.\<close>

definition hex4 :: "jschar \<Rightarrow> jschar \<Rightarrow> jschar \<Rightarrow> jschar \<Rightarrow> jschar option" where
  "hex4 a b c d =
     (case (radixDigit a, radixDigit b, radixDigit c, radixDigit d) of
        (Some p, Some q, Some r, Some s) \<Rightarrow> Some (of_nat (4096 * p + 256 * q + 16 * r + s))
      | _ \<Rightarrow> None)"

text \<open>
  The characters of a string literal after its opening quote, up to the closing
  quote: the string and what follows it. A control character cannot stand
  unescaped.
\<close>

fun parse_chars :: "jsstring \<Rightarrow> (jsstring \<times> jsstring) option" where
  "parse_chars [] = None"
| "parse_chars (c # cs) =
     (if c = 0x22 then Some ([], cs)
      else if c = 0x5C then
        (case cs of
           [] \<Rightarrow> None
         | e # r \<Rightarrow>
             if e = 0x75 then
               (case r of
                  h1 # h2 # h3 # h4 # r' \<Rightarrow>
                    (case hex4 h1 h2 h3 h4 of
                       None \<Rightarrow> None
                     | Some u \<Rightarrow>
                         (case parse_chars r' of
                            None \<Rightarrow> None
                          | Some (s, rest) \<Rightarrow> Some (u # s, rest)))
                | _ \<Rightarrow> None)
             else
               (case escapeChar e of
                  None \<Rightarrow> None
                | Some x \<Rightarrow>
                    (case parse_chars r of
                       None \<Rightarrow> None
                     | Some (s, rest) \<Rightarrow> Some (x # s, rest))))
      else if c < 0x20 then None
      else (case parse_chars cs of
              None \<Rightarrow> None
            | Some (s, rest) \<Rightarrow> Some (c # s, rest)))"

text \<open>
  A JSON number at the head of a string: \<open>-?(0|[1-9][0-9]*)(\\.[0-9]+)?([eE][+-]?[0-9]+)?\<close>.
  Its value is the double nearest to the decimal number written, an infinity beyond
  the range of doubles, and negative zero for a zero with a minus sign.
\<close>

definition parse_number :: "jsstring \<Rightarrow> (jsnum \<times> jsstring) option" where
  "parse_number s =
     (let (neg, u) = (case s of
                        [] \<Rightarrow> (False, s)
                      | c # r \<Rightarrow> if c = 0x2D then (True, r) else (False, s));
          ip = takeWhile isDigit u;
          r1 = dropWhile isDigit u
      in if ip = [] \<or> (length ip > 1 \<and> hd ip = 0x30) then None
         else
           (case (case r1 of
                    [] \<Rightarrow> Some ([], r1)
                  | c # r \<Rightarrow>
                      if c = 0x2E
                      then (if takeWhile isDigit r = [] then None
                            else Some (takeWhile isDigit r, dropWhile isDigit r))
                      else Some ([], r1)) of
              None \<Rightarrow> None
            | Some (fp, r2) \<Rightarrow>
                (case (case r2 of
                         [] \<Rightarrow> Some (0, r2)
                       | c # r \<Rightarrow>
                           if c = 0x65 \<or> c = 0x45
                           then (let (eneg, r') =
                                       (case r of
                                          [] \<Rightarrow> (False, r)
                                        | d # r'' \<Rightarrow> if d = 0x2D then (True, r'')
                                                     else if d = 0x2B then (False, r'')
                                                     else (False, r))
                                 in if takeWhile isDigit r' = [] then None
                                    else Some (if eneg then - int (digitsValue (takeWhile isDigit r'))
                                               else int (digitsValue (takeWhile isDigit r')),
                                               dropWhile isDigit r'))
                           else Some (0, r2)) of
                   None \<Rightarrow> None
                 | Some (e, r3) \<Rightarrow>
                     (let v = scale10 (of_nat (digitsValue (ip @ fp))) (e - int (length fp))
                      in Some (if neg then num_neg (toDouble v) else toDouble v, r3)))))"

text \<open>
  The own properties of the object that a list of parsed members creates. A member
  with a key already present overwrites the value in place. The properties are
  listed in the order of \<open>Object.keys\<close>.
\<close>

fun setMember :: "jsstring \<Rightarrow> 'a \<Rightarrow> (jsstring \<times> 'a) list \<Rightarrow> (jsstring \<times> 'a) list" where
  "setMember k v [] = [(k, v)]"
| "setMember k v ((k', v') # kvs) =
     (if k' = k then (k', v) # kvs else (k', v') # setMember k v kvs)"

definition objectOf :: "(jsstring \<times> 'a) list \<Rightarrow> (jsstring \<times> 'a) list" where
  "objectOf members = objectEntries (foldl (\<lambda>acc (k, v). setMember k v acc) [] members)"

text \<open>
  The recursive descent. \<open>parse_value\<close> reads one value after optional white space;
  \<open>parse_elements\<close> reads the elements of a non-empty array up to its bracket and
  \<open>parse_members\<close> the members of a non-empty object up to its brace. Each result
  comes with the rest of the text. The tests on the lengths always succeed, since a
  value is never empty; they make the recursion well-founded.
\<close>

lemma dropWhile_eq_Cons_length:
  "dropWhile P s = c # cs \<Longrightarrow> Suc (length cs) \<le> length s"
  by (metis length_dropWhile_le length_Cons)

function parse_value :: "jsstring \<Rightarrow> (json \<times> jsstring) option"
  and parse_elements :: "jsstring \<Rightarrow> (json list \<times> jsstring) option"
  and parse_members :: "jsstring \<Rightarrow> ((jsstring \<times> json) list \<times> jsstring) option"
where
  "parse_value s =
     (case skip_ws s of
        [] \<Rightarrow> None
      | c # cs \<Rightarrow>
          if c = 0x7B then
            (case skip_ws cs of
               [] \<Rightarrow> None
             | d # ds \<Rightarrow>
                 if d = 0x7D then Some (JObj [], ds)
                 else (case parse_members (d # ds) of
                         None \<Rightarrow> None
                       | Some (members, rest) \<Rightarrow> Some (JObj (objectOf members), rest)))
          else if c = 0x5B then
            (case skip_ws cs of
               [] \<Rightarrow> None
             | d # ds \<Rightarrow>
                 if d = 0x5D then Some (JArr [], ds)
                 else (case parse_elements (d # ds) of
                         None \<Rightarrow> None
                       | Some (elements, rest) \<Rightarrow> Some (JArr elements, rest)))
          else if c = 0x22 then
            (case parse_chars cs of
               None \<Rightarrow> None
             | Some (chars, rest) \<Rightarrow> Some (JStr chars, rest))
          else if starts_with (str ''true'') (c # cs) then Some (JBool True, drop 4 (c # cs))
          else if starts_with (str ''false'') (c # cs) then Some (JBool False, drop 5 (c # cs))
          else if starts_with (str ''null'') (c # cs) then Some (JNull, drop 4 (c # cs))
          else (case parse_number (c # cs) of
                  None \<Rightarrow> None
                | Some (n, rest) \<Rightarrow> Some (JNum n, rest)))"
| "parse_elements s =
     (case parse_value s of
        None \<Rightarrow> None
      | Some (v, rest) \<Rightarrow>
          (case skip_ws rest of
             [] \<Rightarrow> None
           | c # cs \<Rightarrow>
               if c = 0x5D then Some ([v], cs)
               else if c = 0x2C \<and> length cs < length s then
                 (case parse_elements cs of
                    None \<Rightarrow> None
                  | Some (vs, rest') \<Rightarrow> Some (v # vs, rest'))
               else None))"
| "parse_members s =
     (case skip_ws s of
        [] \<Rightarrow> None
      | q # cs \<Rightarrow>
          if q = 0x22 then
            (case parse_chars cs of
               None \<Rightarrow> None
             | Some (k, r) \<Rightarrow>
                 (case skip_ws r of
                    [] \<Rightarrow> None
                  | c # r1 \<Rightarrow>
                      if c = 0x3A \<and> length r1 < length s then
                        (case parse_value r1 of
                           None \<Rightarrow> None
                         | Some (v, r2) \<Rightarrow>
                             (case skip_ws r2 of
                                [] \<Rightarrow> None
                              | d # r3 \<Rightarrow>
                                  if d = 0x7D then Some ([(k, v)], r3)
                                  else if d = 0x2C \<and> length r3 < length s then
                                    (case parse_members r3 of
                                       None \<Rightarrow> None
                                     | Some (kvs, rest) \<Rightarrow> Some ((k, v) # kvs, rest))
                                  else None))
                      else None))
          else None)"
  by pat_completeness auto

termination
  apply (relation "measure (\<lambda>x. case x of Inl s \<Rightarrow> 2 * length s
                                  | Inr (Inl s) \<Rightarrow> 2 * length s + 1
                                  | Inr (Inr s) \<Rightarrow> 2 * length s + 1)")
  apply (auto simp: skip_ws_def dest!: dropWhile_eq_Cons_length)
  done

declare parse_value.simps [simp del] parse_elements.simps [simp del]
  parse_members.simps [simp del]

text \<open>\<open>JSON.parse(text)\<close>: one value, and nothing but white space after it. \<open>None\<close>
  stands for the SyntaxError.\<close>

definition JSON_parse :: "jsstring \<Rightarrow> json option" where
  "JSON_parse text =
     (case parse_value text of
        None \<Rightarrow> None
      | Some (v, rest) \<Rightarrow> if skip_ws rest = [] then Some v else None)"

subsection \<open>Serialization\<close>

definition hexDigit :: "nat \<Rightarrow> jschar" where
  "hexDigit d = (if d < 10 then of_nat (48 + d) else of_nat (87 + d))"

text \<open>The escape \<open>\\uXXXX\<close> of a code unit, in lower-case digits.\<close>

definition unicodeEscape :: "jschar \<Rightarrow> jsstring" where
  "unicodeEscape c =
     [0x5C, 0x75, hexDigit (unat c div 4096), hexDigit (unat c div 256 mod 16),
      hexDigit (unat c div 16 mod 16), hexDigit (unat c mod 16)]"

definition quoteChar :: "jschar \<Rightarrow> jsstring" where
  "quoteChar c =
     (if c = 0x22 then [0x5C, 0x22]
      else if c = 0x5C then [0x5C, 0x5C]
      else if c = 0x08 then [0x5C, 0x62]
      else if c = 0x0C then [0x5C, 0x66]
      else if c = 0x0A then [0x5C, 0x6E]
      else if c = 0x0D then [0x5C, 0x72]
      else if c = 0x09 then [0x5C, 0x74]
      else if c < 0x20 then unicodeEscape c
      else [c])"

definition isHighSurrogate :: "jschar \<Rightarrow> bool" where
  "isHighSurrogate c \<longleftrightarrow> 0xD800 \<le> c \<and> c \<le> 0xDBFF"

definition isLowSurrogate :: "jschar \<Rightarrow> bool" where
  "isLowSurrogate c \<longleftrightarrow> 0xDC00 \<le> c \<and> c \<le> 0xDFFF"

text \<open>
  The characters of a quoted string: a surrogate pair stays as it is, a lone
  surrogate is escaped.
\<close>

fun quoteChars :: "jsstring \<Rightarrow> jsstring" where
  "quoteChars [] = []"
| "quoteChars [c] =
     (if isHighSurrogate c \<or> isLowSurrogate c then unicodeEscape c else quoteChar c)"
| "quoteChars (c # d # cs) =
     (if isHighSurrogate c then
        (if isLowSurrogate d then c # d # quoteChars cs
         else unicodeEscape c @ quoteChars (d # cs))
      else if isLowSurrogate c then unicodeEscape c @ quoteChars (d # cs)
      else quoteChar c @ quoteChars (d # cs))"

definition quote :: "jsstring \<Rightarrow> jsstring" where
  "quote s = [0x22] @ quoteChars s @ [0x22]"

text \<open>
  \<open>JSON.stringify(value)\<close> without indentation. A finite number prints by
  \<open>Number::toString\<close>, the parameter \<open>numToString\<close>; NaN and the infinities print
  as \<open>null\<close>.
\<close>

fun JSON_stringify :: "(jsnum \<Rightarrow> jsstring) \<Rightarrow> json \<Rightarrow> jsstring" where
  "JSON_stringify numToString JNull = str ''null''"
| "JSON_stringify numToString (JBool b) = (if b then str ''true'' else str ''false'')"
| "JSON_stringify numToString (JNum n) = (if isFinite n then numToString n else str ''null'')"
| "JSON_stringify numToString (JStr s) = quote s"
| "JSON_stringify numToString (JArr xs) =
     [0x5B] @ join (str '','') (map (JSON_stringify numToString) xs) @ [0x5D]"
| "JSON_stringify numToString (JObj kvs) =
     [0x7B] @ join (str '','')
        (map (\<lambda>(k, v). quote k @ [0x3A] @ JSON_stringify numToString v) kvs) @ [0x7D]"

section \<open>Response decoder and structured extractor (aiService.js)\<close>

subsection \<open>parseJSONResponse\<close>

text \<open>
  \<open>s.replace(/FENCE\\s*/g, '')\<close> for a literal, non-empty \<open>FENCE\<close>: every
  occurrence, from left to right, is removed together with the white space after it.
\<close>

function removeFence :: "jsstring \<Rightarrow> jsstring \<Rightarrow> jsstring" where
  "removeFence fence [] = []"
| "removeFence fence (c # cs) =
     (if fence \<noteq> [] \<and> starts_with fence (c # cs)
      then removeFence fence (dropWhile isWhiteSpace (drop (length fence) (c # cs)))
      else c # removeFence fence cs)"
  by pat_completeness auto
termination
proof (relation "measure (\<lambda>(fence, s). length s)", goal_cases)
  case 1
  show ?case by simp
next
  case (2 fence c cs)
  have "length (dropWhile isWhiteSpace (drop (length fence) (c # cs)))
          \<le> length (drop (length fence) (c # cs))"
    by (rule length_dropWhile_le)
  also have "\<dots> < length (c # cs)"
    using 2 by (cases fence) auto
  finally show ?case by simp
next
  case 3
  show ?case by simp
qed

declare removeFence.simps [simp del]

text \<open>\<open>s.indexOf(c)\<close> and \<open>s.lastIndexOf(c)\<close>; \<open>None\<close> is \<open>-1\<close>.\<close>

fun indexOf :: "jschar \<Rightarrow> jsstring \<Rightarrow> nat option" where
  "indexOf c [] = None"
| "indexOf c (d # ds) = (if d = c then Some 0 else map_option Suc (indexOf c ds))"

definition lastIndexOf :: "jschar \<Rightarrow> jsstring \<Rightarrow> nat option" where
  "lastIndexOf c s = map_option (\<lambda>i. length s - 1 - i) (indexOf c (rev s))"

text \<open>
  The text handed to \<open>JSON.parse\<close>: trimmed, the fences removed, and cut from the
  first \<open>{\<close> to the last \<open>}\<close> when both occur.
\<close>

definition cleanResponse :: "jsstring \<Rightarrow> jsstring" where
  "cleanResponse response =
     (let c1 = trim response;
          c2 = removeFence (str ''```json'') c1;
          c3 = removeFence (str ''```'') c2
      in (case (indexOf 0x7B c3, lastIndexOf 0x7D c3) of
            (Some jsonStart, Some jsonEnd) \<Rightarrow> substring c3 jsonStart (jsonEnd + 1)
          | _ \<Rightarrow> c3))"

text \<open>
  \<open>parseJSONResponse(response)\<close>. The response is \<open>None\<close> when \<open>callAI\<close>
  returned \<open>undefined\<close>: then \<open>response.trim()\<close> throws, and so does
  \<open>response.substring\<close> in the \<open>catch\<close> block, whose TypeError leaves the function.
  The message of the SyntaxError of \<open>JSON.parse\<close> on a text is the parameter
  \<open>syntaxMessage\<close>.
\<close>

definition parseJSONResponse ::
  "(jsstring \<Rightarrow> jsstring) \<Rightarrow> jsstring option \<Rightarrow> jserror + json" where
  "parseJSONResponse syntaxMessage response =
     (case response of
        None \<Rightarrow> Inl (Error (str ''Cannot read properties of undefined (reading 'substring')''))
      | Some r \<Rightarrow>
          (case JSON_parse (cleanResponse r) of
             Some v \<Rightarrow> Inr v
           | None \<Rightarrow>
               Inl (Error (str ''Invalid JSON response from AI: ''
                           @ syntaxMessage (cleanResponse r)))))"


subsection \<open>Validation of the extracted data\<close>

text \<open>
  \<open>result.data\<close> on a decoded payload. On \<open>null\<close> the read throws a TypeError;
  an object gives its own property, and no other value has a property \<open>data\<close>.
\<close>

definition resultData :: "json \<Rightarrow> jserror + jsvalue" where
  "resultData result =
     (case result of
        JNull \<Rightarrow> Inl (Error (str ''Cannot read properties of null (reading 'data')''))
      | JObj kvs \<Rightarrow> Inr (case map_of kvs (str ''data'') of Some v \<Rightarrow> Val v | None \<Rightarrow> Undefined)
      | _ \<Rightarrow> Inr Undefined)"

fun isArray :: "jsvalue \<Rightarrow> bool" where
  "isArray (Val (JArr xs)) = True"
| "isArray v = False"

fun arrayLength :: "jsvalue \<Rightarrow> nat" where
  "arrayLength (Val (JArr xs)) = length xs"
| "arrayLength v = 0"

text \<open>
  The test \<open>!result.data || !Array.isArray(result.data) || result.data.length < n\<close>
  and its \<open>throw\<close>; \<open>n\<close> is 2 in \<open>extractStructuredDataWithChunking\<close> and 3 in
  \<open>extractStructuredData\<close>. \<open>arrayLength\<close> is only read of an array.
\<close>

definition validateExtraction :: "nat \<Rightarrow> json \<Rightarrow> jserror + json" where
  "validateExtraction minRecords result =
     (case resultData result of
        Inl e \<Rightarrow> Inl e
      | Inr d \<Rightarrow>
          if \<not> truthy d \<or> \<not> isArray d \<or> arrayLength d < minRecords
          then Inl (Error (str ''Insufficient data extracted for dashboard creation''))
          else Inr result)"

subsection \<open>extractStructuredDataWithChunking\<close>

definition jsonShapeHead :: jsstring where
  \<open>jsonShapeHead =
     str ''{'' @ [NL]
     @ str ''  "data": ['' @ [NL]
     @ str ''    {"category": "Q1", "revenue": 50000, "date": "2024-01-01"},'' @ [NL]
     @ str ''    {"category": "Q2", "revenue": 60000, "date": "2024-04-01"}'' @ [NL]
     @ str ''  ],'' @ [NL]
     @ str ''  "schema": {'' @ [NL]
     @ str ''    "measures": [{"name": "revenue", "type": "number"}],'' @ [NL]
     @ str ''    "dimensions": [{"name": "category", "type": "string"}]'' @ [NL]
     @ str ''  },'' @ [NL]
     @ str ''  "metadata": {'' @ [NL]
     @ str ''    "totalRecords": 2,'' @ [NL]
     @ str ''    "dataSource": "extracted from document",'' @ [NL]\<close>

definition chunkedPrompt :: "jsstring list \<Rightarrow> jsstring \<Rightarrow> jsstring" where
  \<open>chunkedPrompt insights processedText =
     str ''Extract and structure numerical/tabular data from this text. Based on analysis finding: ''
     @ join (str '', '') insights @ [NL, NL]
     @ str ''Text:'' @ [NL] @ QUOTES @ [NL] @ processedText @ [NL] @ QUOTES @ [NL, NL]
     @ str ''Create structured dataset. Respond with ONLY a JSON object:'' @ [NL]
     @ jsonShapeHead
     @ str ''    "extractionConfidence": 85,'' @ [NL]
     @ str ''    "processingMethod": "chunked_analysis"'' @ [NL]
     @ str ''  }'' @ [NL]
     @ str ''}'' @ [NL, NL]
     @ str ''Requirements:'' @ [NL]
     @ str ''- Extract ALL numerical data found'' @ [NL]
     @ str ''- Create consistent column names'' @ [NL]
     @ str ''- Include at least 3 data points'' @ [NL]
     @ str ''- Convert text numbers to actual numbers'' @ [NL]
     @ str ''- No markdown formatting, just JSON''\<close>

text \<open>The \<open>catch\<close> block of both extractors.\<close>

definition extractionFailed :: "jserror \<Rightarrow> jserror" where
  "extractionFailed e =
     (case e of Error m \<Rightarrow> Error (str ''Failed to extract structured data: '' @ m))"

text \<open>
  \<open>extractStructuredDataWithChunking(originalText, analysisResult)\<close>. Of the
  analysis result it reads \<open>insights\<close>, an array of strings, or \<open>None\<close> when the
  field is missing: then \<open>insights.join\<close> throws a TypeError. Every error thrown in
  the \<open>try\<close> block is caught and thrown again under the prefix
  \<open>Failed to extract structured data:\<close>.
\<close>

definition extractStructuredDataWithChunking ::
  "(request \<Rightarrow> axios_outcome) \<Rightarrow> (jsstring \<Rightarrow> bool) \<Rightarrow> (jsstring \<Rightarrow> nat) \<Rightarrow> (jsstring \<Rightarrow> jsstring)
     \<Rightarrow> jsstring \<Rightarrow> jsstring list option \<Rightarrow> request list \<Rightarrow> (jserror + json) \<times> request list" where
  "extractStructuredDataWithChunking post isNum scoreFn syntaxMessage originalText insights issued =
     (case preprocessLargeText post isNum scoreFn originalText issued of
        ((s, processedText), issued1) \<Rightarrow>
          (case insights of
             None \<Rightarrow>
               (Inl (extractionFailed
                  (Error (str ''Cannot read properties of undefined (reading 'join')''))), issued1)
           | Some ins \<Rightarrow>
               (case callAI post (chunkedPrompt ins processedText) 2000 (1 / 10) issued1 of
                  (Inl e, issued2) \<Rightarrow> (Inl (extractionFailed e), issued2)
                | (Inr response, issued2) \<Rightarrow>
                    (case parseJSONResponse syntaxMessage response of
                       Inl e \<Rightarrow> (Inl (extractionFailed e), issued2)
                     | Inr result \<Rightarrow>
                         (case validateExtraction 2 result of
                            Inl e \<Rightarrow> (Inl (extractionFailed e), issued2)
                          | Inr r \<Rightarrow> (Inr r, issued2))))))"

subsection \<open>extractStructuredData (aiService.js, first variant)\<close>

text \<open>
  The first variant of the service posts without a test on the prompt size, and its
  \<open>catch\<close> block does not look for a token error.
\<close>

definition callAI_basic_catch :: "thrown \<Rightarrow> jserror" where
  "callAI_basic_catch err =
     (case err of
        Plain m \<Rightarrow> Error (str ''AI request failed: '' @ m)
      | Axios e \<Rightarrow>
          (case ae_response e of
             Some (status, msg) \<Rightarrow>
               Error (str ''AI API error: '' @ show_nat status @ str '' - '' @
                      (case msg of Some m \<Rightarrow> if m = [] then str ''Unknown error'' else m
                                 | None \<Rightarrow> str ''Unknown error''))
           | None \<Rightarrow>
               if ae_request e then Error (str ''Network error: Could not reach AI service'')
               else Error (str ''AI request failed: '' @ ae_message e)))"

definition callAI_basic ::
  "(request \<Rightarrow> axios_outcome) \<Rightarrow> jsstring \<Rightarrow> nat \<Rightarrow> request list
     \<Rightarrow> (jserror + jsstring option) \<times> request list" where
  "callAI_basic post prompt maxTokens issued =
     (let req = \<lparr>req_content = prompt, req_max_tokens = maxTokens, req_temperature = 1 / 10\<rparr>
      in (case post req of
            Resolved (Choices cs) \<Rightarrow> Inr (case cs of [] \<Rightarrow> None | c # _ \<Rightarrow> c)
          | Resolved (Malformed m) \<Rightarrow> Inl (callAI_basic_catch (Plain m))
          | Rejected e \<Rightarrow> Inl (callAI_basic_catch (Axios e)),
          issued @ [req]))"

text \<open>
  Its \<open>parseJSONResponse\<close> logs the whole response in the \<open>catch\<close> block, so that on
  an undefined response the TypeError of \<open>response.trim()\<close> is the one reported.
\<close>

definition parseJSONResponse_basic ::
  "(jsstring \<Rightarrow> jsstring) \<Rightarrow> jsstring option \<Rightarrow> jserror + json" where
  "parseJSONResponse_basic syntaxMessage response =
     (case response of
        None \<Rightarrow> Inl (Error (str ''Invalid JSON response from AI: ''
                           @ str ''Cannot read properties of undefined (reading 'trim')''))
      | Some r \<Rightarrow>
          (case JSON_parse (cleanResponse r) of
             Some v \<Rightarrow> Inr v
           | None \<Rightarrow>
               Inl (Error (str ''Invalid JSON response from AI: ''
                           @ syntaxMessage (cleanResponse r)))))"

definition basicPrompt :: "jsstring list \<Rightarrow> jsstring \<Rightarrow> jsstring" where
  \<open>basicPrompt insights text =
     str ''Extract and structure the numerical/tabular data from this text into a format suitable for dashboard creation.''
     @ [NL, NL]
     @ str ''Based on the analysis that found: '' @ join (str '', '') insights @ [NL, NL]
     @ str ''Text:'' @ [NL] @ QUOTES @ [NL]
     @ substring text 0 6000 @ str '' ''
     @ (if length text > 6000 then str ''...[truncated]'' else []) @ [NL] @ QUOTES @ [NL, NL]
     @ str ''Create a structured dataset. Respond with ONLY a JSON object in this exact format:'' @ [NL]
     @ jsonShapeHead
     @ str ''    "extractionConfidence": 85'' @ [NL]
     @ str ''  }'' @ [NL]
     @ str ''}'' @ [NL, NL]
     @ str ''Important:'' @ [NL]
     @ str ''- Convert all numerical text to actual numbers'' @ [NL]
     @ str ''- Ensure consistent column names'' @ [NL]
     @ str ''- Include at least 3 data points'' @ [NL]
     @ str ''- Do not include any explanation or markdown formatting'' @ [NL]
     @ str ''- Respond only with the JSON object''\<close>

text \<open>
  \<open>extractStructuredData(text, analysisResult)\<close>. The prompt is built before the
  \<open>try\<close> block, so the TypeError of a missing \<open>insights\<close> is not wrapped.
\<close>

definition extractStructuredData ::
  "(request \<Rightarrow> axios_outcome) \<Rightarrow> (jsstring \<Rightarrow> jsstring) \<Rightarrow> jsstring \<Rightarrow> jsstring list option
     \<Rightarrow> request list \<Rightarrow> (jserror + json) \<times> request list" where
  "extractStructuredData post syntaxMessage text insights issued =
     (case insights of
        None \<Rightarrow> (Inl (Error (str ''Cannot read properties of undefined (reading 'join')'')), issued)
      | Some ins \<Rightarrow>
          (case callAI_basic post (basicPrompt ins text) 2000 issued of
             (Inl e, issued1) \<Rightarrow> (Inl (extractionFailed e), issued1)
           | (Inr response, issued1) \<Rightarrow>
               (case parseJSONResponse_basic syntaxMessage response of
                  Inl e \<Rightarrow> (Inl (extractionFailed e), issued1)
                | Inr result \<Rightarrow>
                    (case validateExtraction 3 result of
                       Inl e \<Rightarrow> (Inl (extractionFailed e), issued1)
                     | Inr r \<Rightarrow> (Inr r, issued1)))))"

text \<open>The error that leaves an extractor when the validation fails.\<close>

definition insufficientData :: jserror where
  "insufficientData =
     Error (str ''Failed to extract structured data: Insufficient data extracted for dashboard creation'')"


subsection \<open>Example message of a SyntaxError\<close>

text \<open>
  The examples decode texts that \<open>JSON.parse\<close> accepts. For the message of the
  SyntaxError, which they never need, they pass the message that V8 gives for a text
  that ends too early.
\<close>

definition endOfInputMessage :: "jsstring \<Rightarrow> jsstring" where
  "endOfInputMessage text = str ''Unexpected end of JSON input''"

subsection \<open>Example texts\<close>

text \<open>
  The object \<open>{a: "```"}\<close>, a text that \<open>JSON.parse\<close> maps to it, in which the first
  backtick is written as the escape \<open>\\u0060\<close>, and its serialization.
\<close>

definition fenceObject :: json where
  "fenceObject = JObj [(str ''a'', JStr (str ''```''))]"

definition escapedFenceText :: jsstring where
  \<open>escapedFenceText = str ''{"a":"'' @ [0x5C] @ str ''u0060``"}''\<close>

definition fenceObjectText :: jsstring where
  \<open>fenceObjectText = str ''{"a":"```"}''\<close>

text \<open>An object without backticks.\<close>

definition plainObject :: json where
  "plainObject = JObj [(str ''total'', JNum (Fin 42)), (str ''unit'', JStr (str ''USD''))]"


section \<open>Properties of the text-budget reducer and the model gateway\<close>

text \<open>
  The greedy loop admits a prefix of the scored chunks: the running token estimate of
  the admitted chunks stays within \<open>safeTextLimit\<close>, and the loop stops at the first
  chunk that would push it past the limit.
\<close>

lemma selectLoop_prefix:
  "tot \<le> safeTextLimit \<Longrightarrow>
   \<exists>k\<le>length cs.
     selectLoop cs sel tot =
       (sel @ concat (map (\<lambda>c. content c @ [NL, NL]) (take k cs)),
        tot + sum_list (map (\<lambda>c. estimateTokens (content c)) (take k cs))) \<and>
     tot + sum_list (map (\<lambda>c. estimateTokens (content c)) (take k cs)) \<le> safeTextLimit \<and>
     (k < length cs \<longrightarrow>
        safeTextLimit < tot + sum_list (map (\<lambda>c. estimateTokens (content c)) (take (Suc k) cs)))"
proof (induction cs arbitrary: sel tot)
  case Nil
  then show ?case by simp
next
  case (Cons c cs)
  show ?case
  proof (cases "tot + estimateTokens (content c) \<le> safeTextLimit")
    case True
    from Cons.IH [OF True, of "sel @ content c @ [NL, NL]"]
    obtain k where k: "k \<le> length cs"
      "selectLoop cs (sel @ content c @ [NL, NL]) (tot + estimateTokens (content c)) =
         ((sel @ content c @ [NL, NL]) @ concat (map (\<lambda>c. content c @ [NL, NL]) (take k cs)),
          tot + estimateTokens (content c) +
            sum_list (map (\<lambda>c. estimateTokens (content c)) (take k cs)))"
      "tot + estimateTokens (content c) +
         sum_list (map (\<lambda>c. estimateTokens (content c)) (take k cs)) \<le> safeTextLimit"
      "k < length cs \<longrightarrow>
         safeTextLimit < tot + estimateTokens (content c) +
           sum_list (map (\<lambda>c. estimateTokens (content c)) (take (Suc k) cs))"
      by blast
    show ?thesis
      apply (rule exI [of _ "Suc k"])
      using True k by (simp add: Let_def add.assoc)
  next
    case False
    show ?thesis
      apply (rule exI [of _ 0])
      using False Cons.prems by (simp add: Let_def)
  qed
qed

lemma selectBestChunks_prefix:
  "\<exists>k\<le>length (scoreChunks scoreFn (chunkText src 4000)).
     selectBestChunks scoreFn src =
       concat (map (\<lambda>c. content c @ [NL, NL])
                 (take k (scoreChunks scoreFn (chunkText src 4000)))) \<and>
     sum_list (map (\<lambda>c. estimateTokens (content c))
                 (take k (scoreChunks scoreFn (chunkText src 4000)))) \<le> safeTextLimit \<and>
     (k < length (scoreChunks scoreFn (chunkText src 4000)) \<longrightarrow>
        safeTextLimit < sum_list (map (\<lambda>c. estimateTokens (content c))
                 (take (Suc k) (scoreChunks scoreFn (chunkText src 4000)))))"
proof -
  have "(0::nat) \<le> safeTextLimit" by simp
  from selectLoop_prefix [OF this, of "scoreChunks scoreFn (chunkText src 4000)" "[]"]
  obtain k where k: "k \<le> length (scoreChunks scoreFn (chunkText src 4000))"
    "selectLoop (scoreChunks scoreFn (chunkText src 4000)) [] 0 =
       ([] @ concat (map (\<lambda>c. content c @ [NL, NL])
                 (take k (scoreChunks scoreFn (chunkText src 4000)))),
        0 + sum_list (map (\<lambda>c. estimateTokens (content c))
                 (take k (scoreChunks scoreFn (chunkText src 4000)))))"
    "0 + sum_list (map (\<lambda>c. estimateTokens (content c))
                 (take k (scoreChunks scoreFn (chunkText src 4000)))) \<le> safeTextLimit"
    "k < length (scoreChunks scoreFn (chunkText src 4000)) \<longrightarrow>
        safeTextLimit < 0 + sum_list (map (\<lambda>c. estimateTokens (content c))
                 (take (Suc k) (scoreChunks scoreFn (chunkText src 4000))))"
    by blast
  show ?thesis
    apply (rule exI [of _ k])
    using k by (simp add: selectBestChunks_def)
qed

text \<open>
  The prompt of the summary is at most 6501 characters long, so \<open>callAI\<close> never
  refuses it for its size: \<open>summarizePreservingData\<close> issues exactly one request, and
  returns the model's content if there is one, the best chunks of its input otherwise.
\<close>

lemma summaryPrompt_length: "length (summaryPrompt text) = 501 + min (length text) 6000"
  by (simp add: summaryPrompt_def QUOTES_def str_def substring_def)

lemma summaryPrompt_fits: "estimateTokens (summaryPrompt text) \<le> maxInputTokens"
  by (simp add: estimateTokens_def maxInputTokens_def summaryPrompt_length)

lemma summarizePreservingData_cases:
  "summarizePreservingData post scoreFn text issued =
     ((case post \<lparr>req_content = summaryPrompt text, req_max_tokens = 1500,
                  req_temperature = 1 / 10\<rparr> of
         Resolved (Choices (Some response # rest)) \<Rightarrow> (AiSummarize, response)
       | _ \<Rightarrow> (BestChunks, selectBestChunks scoreFn text)),
      issued @ [\<lparr>req_content = summaryPrompt text, req_max_tokens = 1500,
                  req_temperature = 1 / 10\<rparr>])"
  using summaryPrompt_fits [of "text"]
  by (auto simp: summarizePreservingData_def callAI_def Let_def
      split: axios_outcome.splits response_body.splits list.splits option.splits)

text \<open>
  Claim C1. For every input text, whatever the line test, the chunk score and the
  network do, \<open>preprocessLargeText\<close> takes exactly one of four paths. A text within
  \<open>safeTextLimit\<close> is returned as it is. A longer text whose numerical lines are not
  empty and fit is replaced by these lines. If the numerical lines do not fit, one
  summary request is issued for them: the content of the answer is returned if there
  is one, and the best chunks of the numerical lines otherwise. If there are no
  numerical lines, the best chunks of the text are returned. So the returned content
  has an estimated token count of at most \<open>safeTextLimit\<close> unless it comes from the
  summary or from the best chunks. And the best chunks are a prefix of the scored
  chunks of their source, each followed by two newlines: the token estimates of the
  admitted chunks add up to at most \<open>safeTextLimit\<close>, and the next chunk, if there
  is one, would push the sum past the limit.
\<close>

theorem preprocessLargeText_budget:
  assumes "preprocessLargeText post isNum scoreFn text issued = ((s, c), issued')"
  shows
  "(let numericalContent = extractNumericalContent isNum text;
        request = \<lparr>req_content = summaryPrompt numericalContent, req_max_tokens = 1500,
                   req_temperature = 1 / 10\<rparr>
    in (estimateTokens text \<le> safeTextLimit \<longrightarrow>
          s = AsIs \<and> c = text \<and> issued' = issued) \<and>
       (safeTextLimit < estimateTokens text \<and> numericalContent \<noteq> [] \<and>
        estimateTokens numericalContent \<le> safeTextLimit \<longrightarrow>
          s = NumericFilter \<and> c = numericalContent \<and> issued' = issued) \<and>
       (safeTextLimit < estimateTokens text \<and>
        safeTextLimit < estimateTokens numericalContent \<longrightarrow>
          issued' = issued @ [request] \<and>
          (s, c) = (case post request of
                      Resolved (Choices (Some response # rest)) \<Rightarrow> (AiSummarize, response)
                    | _ \<Rightarrow> (BestChunks, selectBestChunks scoreFn numericalContent))) \<and>
       (safeTextLimit < estimateTokens text \<and> numericalContent = [] \<longrightarrow>
          s = BestChunks \<and> c = selectBestChunks scoreFn text \<and> issued' = issued) \<and>
       (estimateTokens c \<le> safeTextLimit \<or> s = AiSummarize \<or> s = BestChunks) \<and>
       (s = BestChunks \<longrightarrow>
          (\<exists>src k. (src = text \<or> src = numericalContent) \<and>
             k \<le> length (scoreChunks scoreFn (chunkText src 4000)) \<and>
             c = concat (map (\<lambda>ch. content ch @ [NL, NL])
                       (take k (scoreChunks scoreFn (chunkText src 4000)))) \<and>
             sum_list (map (\<lambda>ch. estimateTokens (content ch))
                       (take k (scoreChunks scoreFn (chunkText src 4000)))) \<le> safeTextLimit \<and>
             (k < length (scoreChunks scoreFn (chunkText src 4000)) \<longrightarrow>
                safeTextLimit <
                  sum_list (map (\<lambda>ch. estimateTokens (content ch))
                       (take (Suc k) (scoreChunks scoreFn (chunkText src 4000))))))))"
proof -
  define nc where "nc = extractNumericalContent isNum text"
  define req where "req = \<lparr>req_content = summaryPrompt nc, req_max_tokens = 1500,
                            req_temperature = 1 / 10\<rparr>"
  have prefix: "\<exists>src k. (src = text \<or> src = nc) \<and>
             k \<le> length (scoreChunks scoreFn (chunkText src 4000)) \<and>
             c = concat (map (\<lambda>ch. content ch @ [NL, NL])
                       (take k (scoreChunks scoreFn (chunkText src 4000)))) \<and>
             sum_list (map (\<lambda>ch. estimateTokens (content ch))
                       (take k (scoreChunks scoreFn (chunkText src 4000)))) \<le> safeTextLimit \<and>
             (k < length (scoreChunks scoreFn (chunkText src 4000)) \<longrightarrow>
                safeTextLimit <
                  sum_list (map (\<lambda>ch. estimateTokens (content ch))
                       (take (Suc k) (scoreChunks scoreFn (chunkText src 4000)))))"
    if "c = selectBestChunks scoreFn src" "src = text \<or> src = nc" for src
    using selectBestChunks_prefix [of scoreFn src] that by blast
  have goal:
    "(estimateTokens text \<le> safeTextLimit \<longrightarrow>
          s = AsIs \<and> c = text \<and> issued' = issued) \<and>
       (safeTextLimit < estimateTokens text \<and> nc \<noteq> [] \<and>
        estimateTokens nc \<le> safeTextLimit \<longrightarrow>
          s = NumericFilter \<and> c = nc \<and> issued' = issued) \<and>
       (safeTextLimit < estimateTokens text \<and>
        safeTextLimit < estimateTokens nc \<longrightarrow>
          issued' = issued @ [req] \<and>
          (s, c) = (case post req of
                      Resolved (Choices (Some response # rest)) \<Rightarrow> (AiSummarize, response)
                    | _ \<Rightarrow> (BestChunks, selectBestChunks scoreFn nc))) \<and>
       (safeTextLimit < estimateTokens text \<and> nc = [] \<longrightarrow>
          s = BestChunks \<and> c = selectBestChunks scoreFn text \<and> issued' = issued) \<and>
       (estimateTokens c \<le> safeTextLimit \<or> s = AiSummarize \<or> s = BestChunks) \<and>
       (s = BestChunks \<longrightarrow>
          (\<exists>src k. (src = text \<or> src = nc) \<and>
             k \<le> length (scoreChunks scoreFn (chunkText src 4000)) \<and>
             c = concat (map (\<lambda>ch. content ch @ [NL, NL])
                       (take k (scoreChunks scoreFn (chunkText src 4000)))) \<and>
             sum_list (map (\<lambda>ch. estimateTokens (content ch))
                       (take k (scoreChunks scoreFn (chunkText src 4000)))) \<le> safeTextLimit \<and>
             (k < length (scoreChunks scoreFn (chunkText src 4000)) \<longrightarrow>
                safeTextLimit <
                  sum_list (map (\<lambda>ch. estimateTokens (content ch))
                       (take (Suc k) (scoreChunks scoreFn (chunkText src 4000)))))))"
  proof (cases "estimateTokens text \<le> safeTextLimit")
    case True
    with assms have "s = AsIs" "c = text" "issued' = issued"
      by (simp_all add: preprocessLargeText_def)
    with True show ?thesis by simp
  next
    case over: False
    show ?thesis
    proof (cases "nc = []")
      case True
      with over assms have r: "s = BestChunks" "c = selectBestChunks scoreFn text" "issued' = issued"
        by (simp_all add: preprocessLargeText_def Let_def nc_def)
      have "estimateTokens nc \<le> safeTextLimit"
        using True by (simp add: estimateTokens_def)
      with over True r prefix [of "text"] show ?thesis by simp
    next
      case nonempty: False
      show ?thesis
      proof (cases "estimateTokens nc \<le> safeTextLimit")
        case True
        with over nonempty assms have "s = NumericFilter" "c = nc" "issued' = issued"
          by (simp_all add: preprocessLargeText_def Let_def nc_def)
        with over nonempty True show ?thesis by simp
      next
        case big: False
        have "preprocessLargeText post isNum scoreFn text issued =
                summarizePreservingData post scoreFn nc issued"
          using over nonempty big by (simp add: preprocessLargeText_def Let_def nc_def)
        with assms have r: "(s, c) = (case post req of
                      Resolved (Choices (Some response # rest)) \<Rightarrow> (AiSummarize, response)
                    | _ \<Rightarrow> (BestChunks, selectBestChunks scoreFn nc))"
          "issued' = issued @ [req]"
          by (simp_all add: summarizePreservingData_cases req_def)
        then have k: "s = AiSummarize \<or> s = BestChunks \<and> c = selectBestChunks scoreFn nc"
          by (auto split: axios_outcome.splits response_body.splits list.splits option.splits)
        then have "s = BestChunks \<longrightarrow> c = selectBestChunks scoreFn nc" by auto
        with over nonempty big r k prefix [of nc] show ?thesis by auto
      qed
    qed
  qed
  then show ?thesis
    unfolding Let_def nc_def req_def .
qed

text \<open>The example texts, evaluated.\<close>

lemma trim_id:
  assumes "s \<noteq> []" "\<not> isWhiteSpace (hd s)" "\<not> isWhiteSpace (last s)"
  shows "trim s = s"
proof -
  have a: "dropWhile isWhiteSpace s = s"
    using assms(1,2) by (simp add: dropWhile_eq_self_iff)
  have b: "dropWhile isWhiteSpace (rev s) = rev s"
    using assms(1,3) by (simp add: dropWhile_eq_self_iff hd_rev)
  show ?thesis by (simp add: trim_def a b)
qed

lemma split_char_absent: "sep \<notin> set s \<Longrightarrow> split_char sep s = [s]"
  by (induction s) auto

lemma split_char_append:
  "sep \<notin> set a \<Longrightarrow> split_char sep (a @ sep # b) = a # split_char sep b"
  by (induction a) auto

lemma split_sentences_absent:
  "\<forall>c\<in>set s. \<not> isTerminator c \<Longrightarrow> split_sentences s = [s]"
  by (induction s) auto

lemma split_sentences_append:
  "\<forall>c\<in>set a. \<not> isTerminator c \<Longrightarrow> isTerminator t \<Longrightarrow>
   split_sentences (a @ t # b) = a # split_sentences (dropWhile isTerminator b)"
  by (induction a) auto

lemma str_includes_hd: "str_includes (x # t) s \<Longrightarrow> x \<in> set s"
  by (induction s) auto

lemma letters_not_numerical: "\<not> containsNumericalData (replicate n 0x61)"
proof -
  have "\<not> str_includes (str ''$,'') (replicate n 0x61)"
    using str_includes_hd [of "0x24" "[0x2C]" "replicate n 0x61"]
    by (auto simp: str_def)
  then show ?thesis
    by (simp add: containsNumericalData_def list_ex_iff isDigit_def)
qed

lemma extract_mixed: "extractNumericalContent containsNumericalData (longLetters @ [NL] @ str ''Q1 100'')
          = str ''Q1 100''"
proof -
  have n: "NL \<notin> set longLetters" "NL \<notin> set (str ''Q1 100'')"
    by (simp_all add: longLetters_def NL_def str_def)
  have sp: "split_char NL (longLetters @ [NL] @ str ''Q1 100'') = [longLetters, str ''Q1 100'']"
    using n by (simp add: split_char_append split_char_absent)
  have c: "containsNumericalData (str ''Q1 100'')"
    by (simp add: containsNumericalData_def isDigit_def str_def)
  have t: "trim (str ''Q1 100'') = str ''Q1 100''"
    by (rule trim_id) (simp_all add: str_def isWhiteSpace_def)
  show ?thesis
    unfolding extractNumericalContent_def sp
    using c letters_not_numerical [of 24001] by (simp add: longLetters_def t)
qed

lemma extract_longDigits: "extractNumericalContent containsNumericalData longDigits = longDigits"
proof -
  have n: "NL \<notin> set longDigits"
    by (simp add: longDigits_def NL_def)
  have c: "containsNumericalData longDigits"
    by (simp add: containsNumericalData_def list_ex_iff isDigit_def longDigits_def)
  have t: "trim longDigits = longDigits"
    by (rule trim_id) (simp_all add: longDigits_def isWhiteSpace_def)
  show ?thesis
    unfolding extractNumericalContent_def using n c by (simp add: split_char_absent t)
qed

lemma extract_sevenSentences: "extractNumericalContent containsNumericalData sevenSentences = []"
proof -
  have n: "NL \<notin> set sevenSentences"
    by (simp add: sevenSentences_def longSentence_def NL_def)
  have "\<not> list_ex isDigit sevenSentences"
    by (simp add: sevenSentences_def longSentence_def list_ex_iff isDigit_def)
  moreover have "\<not> str_includes (str ''$,'') sevenSentences"
    using str_includes_hd [of "0x24" "[0x2C]" sevenSentences]
    by (auto simp: str_def sevenSentences_def longSentence_def)
  ultimately have c: "\<not> containsNumericalData sevenSentences"
    by (simp add: containsNumericalData_def)
  show ?thesis
    unfolding extractNumericalContent_def using n c by (simp add: split_char_absent)
qed


lemma trim_dot_space:
  assumes "xs \<noteq> []" "\<not> isWhiteSpace (hd xs)"
  shows "trim (xs @ [0x2E, 0x20]) = xs @ [0x2E]"
proof -
  have a: "dropWhile isWhiteSpace (xs @ [0x2E, 0x20]) = xs @ [0x2E, 0x20]"
    using assms by (simp add: dropWhile_eq_self_iff)
  show ?thesis
    by (simp add: trim_def a isWhiteSpace_def)
qed

lemma dropWhile_keep: "xs \<noteq> [] \<Longrightarrow> \<not> P (hd xs) \<Longrightarrow> dropWhile P (xs @ ys) = xs @ ys"
  by (cases xs) simp_all

lemma replicate_seven: "replicate 7 x = [x, x, x, x, x, x, x]"
  by (simp add: eval_nat_numeral)

lemma longSentence_facts:
  "length longSentence = 3999" "longSentence \<noteq> []" "hd longSentence = 0x61"
  "last longSentence = 0x61" "\<forall>c\<in>set longSentence. \<not> isTerminator c"
  by (simp_all add: longSentence_def isTerminator_def)

lemma longDigits_facts:
  "length longDigits = 24001" "longDigits \<noteq> []" "hd longDigits = 0x37"
  "last longDigits = 0x37" "\<forall>c\<in>set longDigits. \<not> isTerminator c"
  by (simp_all add: longDigits_def isTerminator_def)

lemma chunkText_longDigits: "chunkText longDigits 4000 = [longDigits @ [0x2E]]"
proof -
  have sp: "split_sentences longDigits = [longDigits]"
    using longDigits_facts(5) by (rule split_sentences_absent)
  have t: "trim longDigits = longDigits"
    by (rule trim_id) (simp_all add: longDigits_facts isWhiteSpace_def)
  have d: "trim (longDigits @ [0x2E, 0x20]) = longDigits @ [0x2E]"
    by (rule trim_dot_space) (simp_all add: longDigits_facts isWhiteSpace_def)
  show ?thesis
    by (simp add: chunkText_def sp t d longDigits_facts str_def)
qed

lemma chunkText_sevenSentences: "chunkText sevenSentences 4000 =
    [longSentence @ [0x2E], longSentence, longSentence, longSentence, longSentence,
     longSentence, longSentence]"
proof -
  have dot: "isTerminator 0x2E" by (simp add: isTerminator_def)
  have keep: "dropWhile isTerminator (longSentence @ ys) = longSentence @ ys" for ys
    by (rule dropWhile_keep) (simp_all add: longSentence_facts isTerminator_def)
  have step: "split_sentences (longSentence @ 0x2E # ys) =
                longSentence # split_sentences (dropWhile isTerminator ys)" for ys
    using longSentence_facts(5) dot by (rule split_sentences_append)
  have sp: "split_sentences sevenSentences =
      [longSentence, longSentence, longSentence, longSentence, longSentence, longSentence,
       longSentence, []]"
    by (simp add: sevenSentences_def replicate_seven step keep)
  have t: "trim longSentence = longSentence"
    by (rule trim_id) (simp_all add: longSentence_facts isWhiteSpace_def)
  have d: "trim (longSentence @ [0x2E, 0x20]) = longSentence @ [0x2E]"
    by (rule trim_dot_space) (simp_all add: longSentence_facts isWhiteSpace_def)
  have e: "trim [] = []" by (simp add: trim_def)
  show ?thesis
    by (simp add: chunkText_def sp t d e longSentence_facts str_def)
qed

lemma scoreChunks_longDigits: "scoreChunks noScore (chunkText longDigits 4000) =
    [\<lparr>content = longDigits @ [0x2E], score = 0\<rparr>]"
  by (simp add: chunkText_longDigits scoreChunks_def noScore_def)

lemma scoreChunks_sevenSentences: "scoreChunks noScore (chunkText sevenSentences 4000) =
    [\<lparr>content = longSentence @ [0x2E], score = 0\<rparr>, \<lparr>content = longSentence, score = 0\<rparr>,
     \<lparr>content = longSentence, score = 0\<rparr>, \<lparr>content = longSentence, score = 0\<rparr>,
     \<lparr>content = longSentence, score = 0\<rparr>, \<lparr>content = longSentence, score = 0\<rparr>,
     \<lparr>content = longSentence, score = 0\<rparr>]"
  by (simp add: chunkText_sevenSentences scoreChunks_def noScore_def)

lemma selectBestChunks_longDigits: "selectBestChunks noScore longDigits = []"
  by (simp add: selectBestChunks_def scoreChunks_longDigits estimateTokens_def safeTextLimit_def longDigits_facts)

lemma selectBestChunks_sevenSentences: "selectBestChunks noScore sevenSentences = sixChunks"
  by (simp add: selectBestChunks_def scoreChunks_sevenSentences estimateTokens_def safeTextLimit_def
      longSentence_facts sixChunks_def)

lemma reduce_asIs: "preprocessLargeText unreachableNetwork containsNumericalData noScore (str ''Q1 100'') []
     = ((AsIs, str ''Q1 100''), [])"
  by (simp add: preprocessLargeText_def estimateTokens_def safeTextLimit_def str_def)

lemma reduce_numericFilter: "preprocessLargeText unreachableNetwork containsNumericalData noScore
       (longLetters @ [NL] @ str ''Q1 100'') []
     = ((NumericFilter, str ''Q1 100''), [])"
  unfolding preprocessLargeText_def extract_mixed
  by (simp add: estimateTokens_def safeTextLimit_def longLetters_def str_def)

lemma reduce_aiSummarize: "preprocessLargeText okResponder containsNumericalData noScore longDigits []
     = ((AiSummarize, str ''ok''),
        [\<lparr>req_content = summaryPrompt longDigits, req_max_tokens = 1500,
          req_temperature = 1 / 10\<rparr>])"
  unfolding preprocessLargeText_def extract_longDigits
  by (simp add: estimateTokens_def safeTextLimit_def longDigits_facts
      summarizePreservingData_cases okResponder_def)

lemma reduce_fallback: "preprocessLargeText unreachableNetwork containsNumericalData noScore longDigits []
     = ((BestChunks, []),
        [\<lparr>req_content = summaryPrompt longDigits, req_max_tokens = 1500,
          req_temperature = 1 / 10\<rparr>])"
  unfolding preprocessLargeText_def extract_longDigits
  by (simp add: estimateTokens_def safeTextLimit_def longDigits_facts
      summarizePreservingData_cases unreachableNetwork_def selectBestChunks_longDigits)

lemma length_sevenSentences: "length sevenSentences = 28000"
  by (simp add: sevenSentences_def replicate_seven longSentence_facts)

lemma reduce_bestChunks: "preprocessLargeText unreachableNetwork containsNumericalData noScore sevenSentences []
     = ((BestChunks, sixChunks), [])"
  unfolding preprocessLargeText_def extract_sevenSentences
  by (simp add: estimateTokens_def safeTextLimit_def length_sevenSentences selectBestChunks_sevenSentences)


text \<open>
  The theorem on each of its paths: a text of six characters, returned as it is; 24001
  letters and a line with digits, reduced to that line; 24001 digits, summarized by a
  network that answers \<open>ok\<close>; the same digits with a network that cannot be reached,
  where the only chunk has 6001 tokens and nothing is selected; and seven sentences of
  1000 tokens each, of which six are admitted. The selected content, with the two
  newlines after each chunk, is then estimated at 6002 tokens: this is the residual
  overflow of the best-chunk path.
\<close>

theorem preprocessLargeText_budget_witness:
  "preprocessLargeText unreachableNetwork containsNumericalData noScore (str ''Q1 100'') []
     = ((AsIs, str ''Q1 100''), []) \<and>
   estimateTokens (str ''Q1 100'') \<le> safeTextLimit \<and>
   preprocessLargeText unreachableNetwork containsNumericalData noScore
       (longLetters @ [NL] @ str ''Q1 100'') []
     = ((NumericFilter, str ''Q1 100''), []) \<and>
   safeTextLimit < estimateTokens (longLetters @ [NL] @ str ''Q1 100'') \<and>
   extractNumericalContent containsNumericalData (longLetters @ [NL] @ str ''Q1 100'')
     = str ''Q1 100'' \<and>
   preprocessLargeText okResponder containsNumericalData noScore longDigits []
     = ((AiSummarize, str ''ok''),
        [\<lparr>req_content = summaryPrompt longDigits, req_max_tokens = 1500,
          req_temperature = 1 / 10\<rparr>]) \<and>
   safeTextLimit < estimateTokens longDigits \<and>
   extractNumericalContent containsNumericalData longDigits = longDigits \<and>
   preprocessLargeText unreachableNetwork containsNumericalData noScore longDigits []
     = ((BestChunks, []),
        [\<lparr>req_content = summaryPrompt longDigits, req_max_tokens = 1500,
          req_temperature = 1 / 10\<rparr>]) \<and>
   scoreChunks noScore (chunkText longDigits 4000)
     = [\<lparr>content = longDigits @ [0x2E], score = 0\<rparr>] \<and>
   safeTextLimit < estimateTokens (longDigits @ [0x2E]) \<and>
   preprocessLargeText unreachableNetwork containsNumericalData noScore sevenSentences []
     = ((BestChunks, sixChunks), []) \<and>
   safeTextLimit < estimateTokens sevenSentences \<and>
   extractNumericalContent containsNumericalData sevenSentences = [] \<and>
   length (scoreChunks noScore (chunkText sevenSentences 4000)) = 7 \<and>
   sixChunks = concat (map (\<lambda>ch. content ch @ [NL, NL])
                 (take 6 (scoreChunks noScore (chunkText sevenSentences 4000)))) \<and>
   sum_list (map (\<lambda>ch. estimateTokens (content ch))
      (take 6 (scoreChunks noScore (chunkText sevenSentences 4000)))) = 6000 \<and>
   sum_list (map (\<lambda>ch. estimateTokens (content ch))
      (take 7 (scoreChunks noScore (chunkText sevenSentences 4000)))) = 7000 \<and>
   estimateTokens sixChunks = 6002"
proof -
  have f1: "estimateTokens (str ''Q1 100'') \<le> safeTextLimit"
    by (simp add: estimateTokens_def safeTextLimit_def str_def)
  have f2: "safeTextLimit < estimateTokens (longLetters @ [NL] @ str ''Q1 100'')"
    by (simp add: estimateTokens_def safeTextLimit_def longLetters_def str_def)
  have f3: "safeTextLimit < estimateTokens longDigits"
    by (simp add: estimateTokens_def safeTextLimit_def longDigits_facts)
  have f4: "safeTextLimit < estimateTokens (longDigits @ [0x2E])"
    by (simp add: estimateTokens_def safeTextLimit_def longDigits_facts)
  have f5: "safeTextLimit < estimateTokens sevenSentences"
    by (simp add: estimateTokens_def safeTextLimit_def length_sevenSentences)
  have f6: "length (scoreChunks noScore (chunkText sevenSentences 4000)) = 7"
    by (simp add: scoreChunks_sevenSentences)
  have f7: "sixChunks = concat (map (\<lambda>ch. content ch @ [NL, NL])
                 (take 6 (scoreChunks noScore (chunkText sevenSentences 4000))))"
    by (simp add: scoreChunks_sevenSentences sixChunks_def)
  have f8: "sum_list (map (\<lambda>ch. estimateTokens (content ch))
      (take 6 (scoreChunks noScore (chunkText sevenSentences 4000)))) = 6000"
    by (simp add: scoreChunks_sevenSentences estimateTokens_def longSentence_facts)
  have f9: "sum_list (map (\<lambda>ch. estimateTokens (content ch))
      (take 7 (scoreChunks noScore (chunkText sevenSentences 4000)))) = 7000"
    by (simp add: scoreChunks_sevenSentences estimateTokens_def longSentence_facts)
  have f10: "estimateTokens sixChunks = 6002"
    by (simp add: sixChunks_def estimateTokens_def longSentence_facts)
  show ?thesis
    using preprocessLargeText_budget [OF reduce_asIs] preprocessLargeText_budget [OF reduce_numericFilter]
      preprocessLargeText_budget [OF reduce_aiSummarize] preprocessLargeText_budget [OF reduce_fallback]
      preprocessLargeText_budget [OF reduce_bestChunks]
    by - (intro conjI, (rule reduce_asIs reduce_numericFilter reduce_aiSummarize reduce_fallback reduce_bestChunks extract_mixed extract_longDigits extract_sevenSentences scoreChunks_longDigits f1 f2 f3 f4 f5 f6 f7 f8 f9 f10)+)
qed

text \<open>
  Claim C2. For every text whose estimated token count is at most \<open>safeTextLimit\<close>,
  the boundary and the empty text included, \<open>preprocessLargeText\<close> returns the text
  unchanged by the as-is path and issues no request: nothing is filtered, summarized
  or selected.
\<close>

theorem preprocessLargeText_asIs:
  "estimateTokens text \<le> safeTextLimit \<Longrightarrow>
     preprocessLargeText post isNum scoreFn text issued = ((AsIs, text), issued)"
  by (simp add: preprocessLargeText_def)

text \<open>The theorem at the boundary, a text of 24000 characters, and at the empty text.\<close>

theorem preprocessLargeText_asIs_witness:
  "estimateTokens (replicate 24000 0x61) = safeTextLimit \<and>
   preprocessLargeText (\<lambda>r. Resolved (Choices [])) containsNumericalData
       (\<lambda>c. length (filter isDigit c)) (replicate 24000 0x61) []
     = ((AsIs, replicate 24000 0x61), []) \<and>
   estimateTokens [] \<le> safeTextLimit \<and>
   preprocessLargeText (\<lambda>r. Resolved (Choices [])) containsNumericalData
       (\<lambda>c. length (filter isDigit c)) [] []
     = ((AsIs, []), [])"
proof -
  have a: "estimateTokens (replicate 24000 0x61) \<le> safeTextLimit"
    by (simp add: estimateTokens_def safeTextLimit_def)
  have b: "estimateTokens [] \<le> safeTextLimit"
    by (simp add: estimateTokens_def)
  show ?thesis
    using preprocessLargeText_asIs [OF a] preprocessLargeText_asIs [OF b] b
    by (simp add: estimateTokens_def safeTextLimit_def)
qed

text \<open>
  Claim C3. For every prompt whose estimated token count exceeds \<open>maxInputTokens\<close>,
  \<open>callAI\<close> fails with the prompt-too-large error, which its own \<open>catch\<close> block
  rethrows under the prefix \<open>AI request failed:\<close>, and the list of issued requests is
  unchanged. For every prompt within the limit, whatever the network answers,
  exactly one request has been issued when \<open>callAI\<close> ends.
\<close>

theorem callAI_guard:
  "(maxInputTokens < estimateTokens prompt \<longrightarrow>
      callAI post prompt maxTokens temperature issued =
        (Inl (Error (str ''AI request failed: Prompt too large: '' @
                     show_nat (estimateTokens prompt) @ str '' tokens (max: 8000)'')), issued)) \<and>
   (estimateTokens prompt \<le> maxInputTokens \<longrightarrow>
      snd (callAI post prompt maxTokens temperature issued) =
        issued @ [\<lparr>req_content = prompt, req_max_tokens = maxTokens,
                   req_temperature = temperature\<rparr>])"
  apply (simp add: callAI_def Let_def callAI_catch_def str_def)
  apply (simp add: maxInputTokens_def show_nat.simps)
  done

text \<open>The theorem at prompts of 32001 characters (8001 tokens) and of 32000 characters.\<close>

theorem callAI_guard_witness:
  "maxInputTokens < estimateTokens (replicate 32001 0x61) \<and>
   callAI (\<lambda>r. Resolved (Choices [Some (str ''ok'')])) (replicate 32001 0x61) 1000 (1 / 10) [] =
     (Inl (Error (str ''AI request failed: Prompt too large: 8001 tokens (max: 8000)'')), []) \<and>
   estimateTokens (replicate 32000 0x61) \<le> maxInputTokens \<and>
   callAI (\<lambda>r. Resolved (Choices [Some (str ''ok'')])) (replicate 32000 0x61) 1000 (1 / 10) [] =
     (Inr (Some (str ''ok'')),
      [\<lparr>req_content = replicate 32000 0x61, req_max_tokens = 1000, req_temperature = 1 / 10\<rparr>])"
  using callAI_guard [of "replicate 32001 0x61" "\<lambda>r. Resolved (Choices [Some (str ''ok'')])"
                         1000 "1 / 10" "[]"]
    callAI_guard [of "replicate 32000 0x61" "\<lambda>r. Resolved (Choices [Some (str ''ok'')])"
                     1000 "1 / 10" "[]"]
  by (simp add: estimateTokens_def maxInputTokens_def show_nat.simps str_def callAI_def)


section \<open>Properties of the numbers\<close>

lemma floor_rat_numeral: "\<lfloor>(numeral a :: rat) / numeral b\<rfloor> = numeral a div numeral b"
  by (metis floor_divide_of_int_eq of_int_numeral)

lemma ceiling_rat_numeral: "\<lceil>(numeral a :: rat) / numeral b\<rceil> = - ((- numeral a) div numeral b)"
  by (metis ceiling_def floor_divide_of_int_eq of_int_numeral of_int_minus minus_divide_left)

text \<open>Evaluation of the rounding on numerals.\<close>

lemmas floorLog_eval =
  floorLog_def [of _ "numeral a"] floorLog_def [of _ "numeral a / numeral b"]
  floorLog_def [of _ "1 / numeral b"] floorLog_def [of _ 1]
  for a b

lemmas ulp_eval =
  ulp_def [of "numeral a"] ulp_def [of "numeral a / numeral b"]
  ulp_def [of "1 / numeral b"] ulp_def [of 1]
  for a b

lemmas roundHalfEven_eval =
  roundHalfEven_def [of "numeral a"] roundHalfEven_def [of "numeral a / numeral b"]
  roundHalfEven_def [of "1 / numeral b"] roundHalfEven_def [of 1] roundHalfEven_def [of 0]
  for a b

lemmas roundMagnitude_eval =
  roundMagnitude_def [of "numeral a"] roundMagnitude_def [of "numeral a / numeral b"]
  roundMagnitude_def [of "1 / numeral b"] roundMagnitude_def [of 1] roundMagnitude_def [of 0]
  for a b

lemmas toDouble_eval =
  toDouble_def [of "numeral a"] toDouble_def [of "numeral a / numeral b"]
  toDouble_def [of "1 / numeral b"] toDouble_def [of 1] toDouble_def [of 0]
  toDouble_def [of "- numeral a"] toDouble_def [of "- (numeral a / numeral b)"]
  toDouble_def [of "- (1 / numeral b)"] toDouble_def [of "- 1"]
  for a b

lemmas number_eval = toDouble_eval roundMagnitude_eval ulp_eval roundHalfEven_eval floorLog_eval
  compute_floorlog floor_rat_numeral ceiling_rat_numeral Let_def

lemma floorLog_bounds:
  assumes "0 < a" "1 < b"
  shows "of_nat b powi (floorLog b a) \<le> a" "a < of_nat b powi (floorLog b a + 1)"
proof -
  have goal: "of_nat b powi (floorLog b a) \<le> a \<and> a < of_nat b powi (floorLog b a + 1)"
  proof (cases "1 \<le> a")
    case True
    define n where "n = nat \<lfloor>a\<rfloor>"
    have n1: "1 \<le> n" using True by (simp add: n_def le_nat_iff le_floor_iff)
    define k where "k = floorlog b n"
    have b: "b ^ (k - 1) \<le> n" "n < b ^ k"
      using floorlog_bounds [of n b] n1 assms(2) by (simp_all add: k_def)
    have k1: "1 \<le> k" using b(2) n1 by (cases k) auto
    have fl: "floorLog b a = int (k - 1)" using True k1 by (simp add: floorLog_def n_def k_def)
    have na: "of_nat n \<le> a" "a < of_nat n + 1"
      using True by (simp_all add: n_def) linarith+
    have "(of_nat b :: rat) ^ (k - 1) \<le> of_nat n"
      using b(1) by (metis of_nat_le_iff of_nat_power)
    then have "(of_nat b :: rat) ^ (k - 1) \<le> a" using na(1) by (rule order_trans)
    then have lo: "of_nat b powi (floorLog b a) \<le> a" by (simp add: fl)
    have "Suc n \<le> b ^ k" using b(2) by simp
    then have "(of_nat (Suc n) :: rat) \<le> of_nat b ^ k" by (metis of_nat_le_iff of_nat_power)
    moreover have "floorLog b a + 1 = int k" using k1 fl by simp
    moreover have "a < of_nat (Suc n)" using na(2) by simp
    ultimately have hi: "a < of_nat b powi (floorLog b a + 1)" by simp
    from lo hi show ?thesis ..
  next
    case False
    then have a1: "a < 1" by simp
    define c where "c = \<lceil>1 / a\<rceil>"
    have inv: "1 < 1 / a" using assms(1) a1 by simp
    have c2: "2 \<le> c" using inv unfolding c_def by (simp add: le_ceiling_iff) 
    define m where "m = nat (c - 1)"
    have m1: "1 \<le> m" using c2 by (simp add: m_def)
    have mc: "int m = c - 1" using c2 by (simp add: m_def)
    define k where "k = floorlog b m"
    have b: "b ^ (k - 1) \<le> m" "m < b ^ k"
      using floorlog_bounds [of m b] m1 assms(2) by (simp_all add: k_def)
    have k1: "1 \<le> k" using b(2) m1 by (cases k) auto
    have fl: "floorLog b a = - int k" using False by (simp add: floorLog_def m_def k_def c_def)
    have ca: "1 / a \<le> of_int c" "of_int c - 1 < 1 / a"
      unfolding c_def by linarith+
    have bpos: "(0::rat) < of_nat b ^ k" "(0::rat) < of_nat b ^ (k - 1)" using assms(2) by simp_all
    have "Suc m \<le> b ^ k" using b(2) by simp
    then have "int (Suc m) \<le> int (b ^ k)" by (simp only: of_nat_le_iff)
    then have "c \<le> int b ^ k" using mc by simp
    then have "(of_int c :: rat) \<le> of_int (int b ^ k)" by (simp only: of_int_le_iff)
    then have "1 / a \<le> of_nat b ^ k" using ca(1) by simp
    then have "1 / of_nat b ^ k \<le> a" using assms(1) bpos(1)
      by (simp add: field_simps)
    then have lo: "of_nat b powi (floorLog b a) \<le> a"
      by (simp add: fl power_int_minus divide_inverse)
    have "int (b ^ (k - 1)) \<le> c - 1" using b(1) mc by linarith
    then have "(of_int (int (b ^ (k - 1))) :: rat) \<le> of_int (c - 1)" by (simp only: of_int_le_iff)
    then have "(of_nat b :: rat) ^ (k - 1) < 1 / a" using ca(2) by simp
    then have "a < 1 / of_nat b ^ (k - 1)" using assms(1) bpos(2)
      by (simp add: field_simps)
    moreover have "floorLog b a + 1 = - int (k - 1)" using k1 fl by simp
    ultimately have hi: "a < of_nat b powi (floorLog b a + 1)"
      by (simp add: power_int_minus divide_inverse)
    from lo hi show ?thesis ..
  qed
  from goal show "of_nat b powi (floorLog b a) \<le> a" "a < of_nat b powi (floorLog b a + 1)"
    by simp_all
qed


lemma gridUnit_pos: "0 < gridUnit"
  by (simp add: gridUnit_def)

lemma roundHalfEven_int: "roundHalfEven (of_int z) = z"
  by (simp add: roundHalfEven_def)

lemma roundHalfEven_floor: "\<lfloor>r\<rfloor> \<le> roundHalfEven r"
  by (simp add: roundHalfEven_def Let_def)

lemma roundHalfEven_close: "\<bar>of_int (roundHalfEven r) - r\<bar> \<le> 1 / 2"
proof -
  define f where "f = \<lfloor>r\<rfloor>"
  have b: "of_int f \<le> r" "r < of_int f + 1" unfolding f_def by linarith+
  have r: "roundHalfEven r =
      (if r - of_int f < 1 / 2 then f else if 1 / 2 < r - of_int f then f + 1
       else if even f then f else f + 1)"
    by (simp add: roundHalfEven_def Let_def f_def)
  show ?thesis
  proof (cases "r - of_int f < 1 / 2")
    case True
    then show ?thesis using b by (simp add: r abs_if)
  next
    case False
    then show ?thesis using b by (cases "even f") (auto simp: r abs_if)
  qed
qed

lemma ulp_pos: "0 < ulp a"
  by (simp add: ulp_def)

lemma ulp_grid: "ulp a = of_int (2 ^ nat (max (floorLog 2 a) (- 1022) + 1022)) * gridUnit"
proof -
  define e where "e = max (floorLog 2 a) (- 1022)"
  have e: "0 \<le> e + 1022" by (simp add: e_def)
  have "e - 52 = (e + 1022) + (- 1074)" by simp
  then have "ulp a = (2::rat) powi ((e + 1022) + (- 1074))"
    by (simp only: ulp_def e_def)
  also have "\<dots> = 2 powi (e + 1022) * 2 powi (- 1074)"
    by (rule power_int_add) simp
  also have "(2::rat) powi (e + 1022) = 2 powi (int (nat (e + 1022)))"
    using e by simp
  also have "\<dots> = 2 ^ nat (e + 1022)"
    by (simp only: power_int_of_nat)
  finally show ?thesis by (simp only: gridUnit_def e_def of_int_power of_int_numeral)
qed

lemma roundMagnitude_nonneg: "0 \<le> a \<Longrightarrow> 0 \<le> roundMagnitude a"
proof -
  assume a: "0 \<le> a"
  have "0 \<le> a / ulp a" using a ulp_pos [of a] by simp
  then have "0 \<le> \<lfloor>a / ulp a\<rfloor>" by simp
  then have "0 \<le> roundHalfEven (a / ulp a)"
    using roundHalfEven_floor [of "a / ulp a"] by linarith
  then show ?thesis
    using ulp_pos [of a] by (simp add: roundMagnitude_def)
qed

lemma ulp_le:
  assumes "gridUnit \<le> a"
  shows "ulp a \<le> a"
proof (cases "floorLog 2 a \<le> - 1022")
  case True
  then have "max (floorLog 2 a) (- 1022) - 52 = - 1074" by simp
  then have "ulp a = gridUnit" by (simp only: ulp_def gridUnit_def)
  then show ?thesis using assms by simp
next
  case False
  have apos: "0 < a" using gridUnit_pos assms by (rule less_le_trans)
  have "max (floorLog 2 a) (- 1022) - 52 = floorLog 2 a - 52" using False by simp
  then have "ulp a = 2 powi (floorLog 2 a - 52)" by (simp only: ulp_def)
  also have "\<dots> \<le> 2 powi (floorLog 2 a)"
    by (rule power_int_increasing) simp_all
  also have "\<dots> \<le> a"
    using floorLog_bounds(1) [OF apos, of 2] by simp
  finally show ?thesis .
qed

lemma roundMagnitude_pos:
  assumes "gridUnit \<le> a"
  shows "0 < roundMagnitude a"
proof -
  have apos: "0 < a" using gridUnit_pos assms by (rule less_le_trans)
  have "1 \<le> a / ulp a" using ulp_le [OF assms] ulp_pos [of a] by simp
  then have "1 \<le> \<lfloor>a / ulp a\<rfloor>" by simp
  then have "1 \<le> roundHalfEven (a / ulp a)"
    using roundHalfEven_floor [of "a / ulp a"] by linarith
  then have "0 < (of_int (roundHalfEven (a / ulp a)) :: rat)" by simp
  then show ?thesis
    using ulp_pos [of a] apos by (simp add: roundMagnitude_def)
qed

lemma roundMagnitude_grid: "onGrid (roundMagnitude a)"
proof (cases "a = 0")
  case True
  then show ?thesis by (simp add: roundMagnitude_def onGrid_def)
next
  case False
  define n where "n = nat (max (floorLog 2 a) (- 1022) + 1022)"
  define k where "k = roundHalfEven (a / ulp a)"
  have u: "ulp a = of_int (2 ^ n) * gridUnit"
    unfolding n_def by (rule ulp_grid)
  have "roundMagnitude a = of_int k * ulp a"
    using False by (simp add: roundMagnitude_def k_def)
  then have "roundMagnitude a = of_int (k * 2 ^ n) * gridUnit"
    by (simp only: u of_int_mult mult.assoc)
  then show ?thesis unfolding onGrid_def by blast
qed

lemma onGrid_minus: "onGrid q \<Longrightarrow> onGrid (- q)"
  unfolding onGrid_def by (metis mult_minus_left of_int_minus)

lemma onGrid_zero: "onGrid 0"
  unfolding onGrid_def by (metis mult_zero_left of_int_0)

lemma onGrid_add: "onGrid a \<Longrightarrow> onGrid b \<Longrightarrow> onGrid (a + b)"
  unfolding onGrid_def by (metis distrib_right of_int_add)

lemma onGrid_abs_ge: "onGrid q \<Longrightarrow> q \<noteq> 0 \<Longrightarrow> gridUnit \<le> \<bar>q\<bar>"
proof -
  assume g: "onGrid q" and n: "q \<noteq> 0"
  then obtain z :: int where z: "q = of_int z * gridUnit"
    unfolding onGrid_def by blast
  have "z \<noteq> 0" using z n by auto
  then have "1 \<le> \<bar>z\<bar>" by simp
  then have "(1::rat) \<le> \<bar>of_int z\<bar>" by (metis of_int_1_le_iff of_int_abs)
  then have "1 * gridUnit \<le> \<bar>of_int z\<bar> * gridUnit"
    using gridUnit_pos by (intro mult_right_mono) simp_all
  then show ?thesis using gridUnit_pos by (simp add: z abs_mult)
qed

lemma toDouble_grid: "toDouble q = Fin r \<Longrightarrow> onGrid r"
proof -
  assume a: "toDouble q = Fin r"
  have "r = 0 \<or> r = roundMagnitude \<bar>q\<bar> \<or> r = - roundMagnitude \<bar>q\<bar>"
    using a by (simp add: toDouble_def Let_def split: if_splits)
  then show ?thesis
    using roundMagnitude_grid [of "\<bar>q\<bar>"] onGrid_zero onGrid_minus by blast
qed

lemma toDouble_less_zero:
  assumes "onGrid q"
  shows "num_less (toDouble q) (Fin 0) = (q < 0)"
proof (cases "q < 0")
  case True
  then have "gridUnit \<le> \<bar>q\<bar>" using assms by (intro onGrid_abs_ge) simp_all
  then have "0 < roundMagnitude \<bar>q\<bar>" by (rule roundMagnitude_pos)
  then show ?thesis using True by (simp add: toDouble_def Let_def)
next
  case False
  have "0 \<le> roundMagnitude \<bar>q\<bar>" by (rule roundMagnitude_nonneg) simp
  then show ?thesis using False by (simp add: toDouble_def Let_def)
qed

lemma toDouble_zero: "toDouble 0 = Fin 0"
  by (simp add: toDouble_def roundMagnitude_def)

lemma toDouble_of_int:
  assumes "\<bar>k\<bar> < 2 ^ 53"
  shows "toDouble (of_int k) = Fin (of_int k)"
proof (cases "k = 0")
  case True
  then show ?thesis by (simp add: toDouble_zero)
next
  case False
  define a :: rat where "a = of_int \<bar>k\<bar>"
  have "1 \<le> \<bar>k\<bar>" using False by simp
  then have a1: "1 \<le> a" unfolding a_def by (simp only: of_int_1_le_iff)
  have apos: "0 < a" using a1 by simp
  have a53: "a < 2 ^ 53" using assms unfolding a_def
    by (metis of_int_less_iff of_int_numeral of_int_power)
  define L where "L = floorLog 2 a"
  have b: "2 powi L \<le> a" "a < 2 powi (L + 1)"
    using floorLog_bounds [OF apos, of 2] by (simp_all add: L_def)
  have L0: "0 \<le> L"
  proof (rule ccontr)
    assume "\<not> 0 \<le> L"
    then have "L + 1 \<le> 0" by simp
    then have "(2::rat) powi (L + 1) \<le> 2 powi 0" by (intro power_int_increasing) simp_all
    then show False using b(2) a1 by simp
  qed
  have L52: "L \<le> 52"
  proof (rule ccontr)
    assume "\<not> L \<le> 52"
    then have "53 \<le> L" by simp
    then have "(2::rat) powi 53 \<le> 2 powi L" by (intro power_int_increasing) simp_all
    then have "(2::rat) ^ 53 \<le> a" using b(1) by simp
    then show False using a53 by simp
  qed
  define n where "n = nat (52 - L)"
  have u: "ulp a = 2 powi (L - 52)" using L0 by (simp add: ulp_def L_def max_def)
  have "(2::rat) powi (L - 52) * 2 powi (52 - L) = 2 powi ((L - 52) + (52 - L))"
    by (rule power_int_add [symmetric]) simp
  then have inv: "(2::rat) powi (L - 52) * 2 powi (52 - L) = 1" by simp
  have pn: "(2::rat) powi (52 - L) = 2 ^ n"
    using L52 by (simp add: n_def power_int_def)
  have upos: "0 < ulp a" by (rule ulp_pos)
  have "a / ulp a = a * 2 ^ n"
    using inv upos unfolding u pn by (simp add: field_simps)
  also have "\<dots> = of_int (\<bar>k\<bar> * 2 ^ n)" by (simp add: a_def)
  finally have q: "a / ulp a = of_int (\<bar>k\<bar> * 2 ^ n)" .
  have "roundMagnitude a = of_int (\<bar>k\<bar> * 2 ^ n) * ulp a"
    using apos by (simp only: roundMagnitude_def q roundHalfEven_int) simp
  also have "\<dots> = a * (2 ^ n * ulp a)" by (simp add: a_def)
  also have "2 ^ n * ulp a = 1" using inv unfolding u pn by (simp add: mult.commute)
  finally have m: "roundMagnitude a = a" by simp
  have abs: "\<bar>of_int k :: rat\<bar> = a" by (simp add: a_def)
  have big: "\<not> (2::rat) ^ 1024 \<le> a"
  proof
    assume "(2::rat) ^ 1024 \<le> a"
    moreover have "(2::rat) ^ 53 \<le> 2 ^ 1024" by (rule power_increasing) simp_all
    ultimately show False using a53 by simp
  qed
  show ?thesis
    using apos big False by (simp add: toDouble_def Let_def abs m) (simp add: a_def)
qed

lemma roundMagnitude_ge:
  assumes "0 < a" "- 1022 \<le> floorLog 2 a"
  shows "2 powi (floorLog 2 a) \<le> roundMagnitude a"
proof -
  define L where "L = floorLog 2 a"
  define c :: rat where "c = 2 powi 52"
  define n where "n = roundHalfEven (a / ulp a)"
  have u: "ulp a = 2 powi (L - 52)" using assms(2) by (simp add: ulp_def L_def max_def)
  have upos: "0 < ulp a" by (rule ulp_pos)
  have "(2::rat) powi ((L - 52) + 52) = 2 powi (L - 52) * 2 powi 52"
    by (rule power_int_add) simp
  then have split: "(2::rat) powi L = c * ulp a" by (simp add: u c_def)
  have "2 powi L \<le> a" using floorLog_bounds(1) [OF assms(1), of 2] by (simp add: L_def)
  then have "c * ulp a \<le> a" by (simp only: split)
  then have "c \<le> a / ulp a" using upos by (simp add: pos_le_divide_eq)
  moreover have "c = of_int (2 ^ 52)" by (simp add: c_def)
  ultimately have "(2::int) ^ 52 \<le> \<lfloor>a / ulp a\<rfloor>" by (simp only: le_floor_iff)
  then have "(2::int) ^ 52 \<le> n"
    unfolding n_def using roundHalfEven_floor [of "a / ulp a"] by linarith
  then have "(of_int ((2::int) ^ 52) :: rat) \<le> of_int n"
    by (simp only: of_int_le_iff)
  then have "c \<le> of_int n" by (simp add: c_def)
  then have "c * ulp a \<le> of_int n * ulp a"
    using upos by (intro mult_right_mono) simp_all
  moreover have "roundMagnitude a = of_int n * ulp a"
    using assms(1) by (simp add: roundMagnitude_def n_def)
  ultimately show ?thesis by (simp only: split L_def [symmetric])
qed

lemma toDouble_overflow:
  assumes "2 ^ 1024 \<le> \<bar>q\<bar>"
  shows "toDouble q = (if q < 0 then NInf else PInf)"
proof -
  define a where "a = \<bar>q\<bar>"
  have big: "2 ^ 1024 \<le> a" using assms by (simp add: a_def)
  have apos: "0 < a" using big by (rule less_le_trans [rotated]) simp
  define L where "L = floorLog 2 a"
  have L: "1024 \<le> L"
  proof (rule ccontr)
    assume "\<not> 1024 \<le> L"
    then have "L + 1 \<le> 1024" by simp
    then have "(2::rat) powi (L + 1) \<le> 2 powi 1024" by (intro power_int_increasing) simp_all
    moreover have "a < 2 powi (L + 1)"
      using floorLog_bounds(2) [OF apos, of 2] by (simp add: L_def)
    ultimately show False using big by simp
  qed
  have "(2::rat) powi 1024 \<le> 2 powi L" using L by (intro power_int_increasing) simp_all
  also have "\<dots> \<le> roundMagnitude a"
    unfolding L_def using apos L by (intro roundMagnitude_ge) (simp_all add: L_def)
  finally have "2 ^ 1024 \<le> roundMagnitude a" by simp
  then show ?thesis by (simp add: toDouble_def Let_def a_def)
qed

text \<open>Integers below \<open>2^53\<close> in magnitude are doubles.\<close>

lemma toDouble_one: "toDouble 1 = Fin 1"
  using toDouble_of_int [of 1] by simp

lemma toDouble_numeral: "(numeral k :: int) < 2 ^ 53 \<Longrightarrow> toDouble (numeral k) = Fin (numeral k)"
  using toDouble_of_int [of "numeral k"] by simp

lemma toDouble_neg_numeral:
  "(numeral k :: int) < 2 ^ 53 \<Longrightarrow> toDouble (- numeral k) = Fin (- numeral k)"
  using toDouble_of_int [of "- numeral k"] by simp

lemmas toDouble_ints = toDouble_zero toDouble_one toDouble_numeral toDouble_neg_numeral

text \<open>Every sum is a double, and the sign of a difference of doubles is exact.\<close>

lemma num_add_grid: "numOnGrid (num_add x y)"
proof -
  have t: "numOnGrid (toDouble q)" for q
    by (cases "toDouble q") (simp_all add: numOnGrid_def toDouble_grid)
  show ?thesis
    by (cases x; cases y) (simp_all add: t, simp_all add: numOnGrid_def)
qed

lemma num_sub_less_zero:
  assumes "x \<noteq> NaN" "y \<noteq> NaN" "numOnGrid x" "numOnGrid y"
  shows "num_less (num_sub x y) (Fin 0) = num_less x y"
proof (cases x)
  case (Fin a)
  then have ga: "onGrid a" using assms(3) by (simp add: numOnGrid_def)
  show ?thesis
  proof (cases y)
    case (Fin b)
    then have gb: "onGrid b" using assms(4) by (simp add: numOnGrid_def)
    have "onGrid (a + - b)" using ga gb by (intro onGrid_add onGrid_minus)
    then have "num_less (toDouble (a - b)) (Fin 0) = (a - b < 0)"
      by (simp add: toDouble_less_zero)
    moreover have "num_less (toDouble a) (Fin 0) = (a < 0)"
      using ga by (rule toDouble_less_zero)
    ultimately show ?thesis using \<open>x = Fin a\<close> Fin by (simp add: num_sub_def)
  next
    case NegZero
    have "num_less (toDouble a) (Fin 0) = (a < 0)"
      using ga by (rule toDouble_less_zero)
    then show ?thesis using \<open>x = Fin a\<close> NegZero by (simp add: num_sub_def)
  qed (use \<open>x = Fin a\<close> assms in \<open>simp_all add: num_sub_def\<close>)
next
  case NegZero
  show ?thesis
  proof (cases y)
    case (Fin b)
    then have gb: "onGrid (- b)" using assms(4) by (simp add: numOnGrid_def onGrid_minus)
    have "num_less (toDouble (- b)) (Fin 0) = (- b < 0)"
      using gb by (rule toDouble_less_zero)
    then show ?thesis using \<open>x = NegZero\<close> Fin by (simp add: num_sub_def)
  qed (use \<open>x = NegZero\<close> assms in \<open>simp_all add: num_sub_def toDouble_zero\<close>)
qed (use assms in \<open>cases y; simp add: num_sub_def\<close>)+

lemma num_less_asym: "num_less x y \<Longrightarrow> \<not> num_less y x"
  by (cases x; cases y) auto

lemma num_less_negtrans:
  "x \<noteq> NaN \<Longrightarrow> y \<noteq> NaN \<Longrightarrow> z \<noteq> NaN \<Longrightarrow>
   \<not> num_less x y \<Longrightarrow> \<not> num_less y z \<Longrightarrow> \<not> num_less x z"
  by (cases x; cases y; cases z) auto


section \<open>Properties of the calculator\<close>


lemmas parseFloat_eval =
  parseFloatStr_def strDecimalLiteral_def str_def isWhiteSpace_def isDigit_def
  exponentPart_def digitsValue_def scale10_def getProp_def

lemmas shortestFrom_eval =
  shortestFrom.simps [of _ "numeral a"] shortestFrom.simps [of _ "numeral a / numeral b"]
  shortestFrom.simps [of _ "1 / numeral b"] shortestFrom.simps [of _ 1]
  for a b

lemmas format_eval =
  formatValue_def toFixed1_def toLowerCase_def signOf_def num_ge_def
  roundHalfUp_def show_nat.simps digit_def str_def
  formatCurrency_def formatPercent_def percentDigits_def toLocaleString_def localeDigits_def
  intlRound_def shortestDecimal_def shortestFrom_eval group3.simps pad3_def




text \<open>
  The sum is a sum of doubles: \<open>0.1 + 0.2\<close> is \<open>0.30000000000000004\<close> and not
  \<open>0.3\<close>, the average of the two is \<open>0.15000000000000002\<close>, \<open>1e400\<close> parses to
  \<open>Infinity\<close>, and \<open>-0\<close> parses to negative zero.
\<close>

lemma calculateSum_rounds:
  "calculateSum [[str ''x'' \<mapsto> JStr (str ''0.1'')], [str ''x'' \<mapsto> JStr (str ''0.2'')]] (str ''x'')
     = Fin (1351079888211149 / 4503599627370496) \<and>
   toDouble (30000000000000004 / 10 ^ 17) = Fin (1351079888211149 / 4503599627370496) \<and>
   toDouble (3 / 10) \<noteq> Fin (1351079888211149 / 4503599627370496) \<and>
   calculateAverage [[str ''x'' \<mapsto> JStr (str ''0.1'')], [str ''x'' \<mapsto> JStr (str ''0.2'')]] (str ''x'')
     = toDouble (15000000000000002 / 10 ^ 17) \<and>
   parseFloatStr (str ''1e400'') = PInf \<and>
   parseFloatStr (str ''-0'') = NegZero"
proof -
  have p1: "parseFloatStr (str ''0.1'') = toDouble (1 / 10)"
    and p2: "parseFloatStr (str ''0.2'') = toDouble (1 / 5)"
    and p3: "parseFloatStr (str ''1e400'') = toDouble (10 ^ 400)"
    and p4: "parseFloatStr (str ''-0'') = num_neg (toDouble 0)"
    by (simp_all add: parseFloat_eval)
  have d1: "toDouble (1 / 10) = Fin (3602879701896397 / 36028797018963968)"
    and d2: "toDouble (1 / 5) = Fin (3602879701896397 / 18014398509481984)"
    by (simp_all add: number_eval)
  have i: "toDouble (3602879701896397 / 36028797018963968)
            = Fin (3602879701896397 / 36028797018963968)"
    by (simp add: number_eval)
  have s: "toDouble (10808639105689191 / 36028797018963968)
            = Fin (1351079888211149 / 4503599627370496)"
    by (simp add: number_eval)
  have a: "toDouble (1351079888211149 / 9007199254740992) = toDouble (15000000000000002 / 10 ^ 17)"
    by (simp add: number_eval)
  have t: "toDouble (30000000000000004 / 10 ^ 17) = Fin (1351079888211149 / 4503599627370496)"
    "toDouble (3 / 10) \<noteq> Fin (1351079888211149 / 4503599627370496)"
    by (simp_all add: number_eval)
  have "(2::rat) ^ 1024 \<le> \<bar>10 ^ 400\<bar>" by simp
  then have o: "toDouble (10 ^ 400) = PInf" by (simp only: toDouble_overflow) simp
  have z: "num_neg (toDouble 0) = NegZero" by (simp add: toDouble_zero)
  have sum: "calculateSum [[str ''x'' \<mapsto> JStr (str ''0.1'')], [str ''x'' \<mapsto> JStr (str ''0.2'')]] (str ''x'')
     = Fin (1351079888211149 / 4503599627370496)"
    by (simp add: calculateSum_def getProp_def Let_def p1 p2 d1 d2 i s)
  have avg: "calculateAverage [[str ''x'' \<mapsto> JStr (str ''0.1'')], [str ''x'' \<mapsto> JStr (str ''0.2'')]] (str ''x'')
     = toDouble (15000000000000002 / 10 ^ 17)"
    unfolding calculateAverage_def sum by (simp add: getProp_def Let_def p1 p2 d1 d2 a)
  show ?thesis
    by (simp only: sum avg t p3 p4 o z) simp
qed




lemma formatValue_Fin:
  "formatValue numToString (Fin x) fmt =
     (if map_option toLowerCase fmt = Some (str ''currency'') then formatCurrency (Fin x)
      else if map_option toLowerCase fmt = Some (str ''percent'')
      then formatPercent (toDouble (x / 100))
      else if 1000000 \<le> x then toFixed1 numToString (toDouble (x / 1000000)) @ str ''M''
      else if 1000 \<le> x then toFixed1 numToString (toDouble (x / 1000)) @ str ''K''
      else toLocaleString (Fin x))"
proof -
  define f where "f = map_option toLowerCase fmt"
  have "formatValue numToString (Fin x) fmt =
     (if f = Some (str ''currency'') then formatCurrency (Fin x)
      else if f = Some (str ''percent'') then formatPercent (toDouble (x / 100))
      else if 1000000 \<le> x then toFixed1 numToString (toDouble (x / 1000000)) @ str ''M''
      else if 1000 \<le> x then toFixed1 numToString (toDouble (x / 1000)) @ str ''K''
      else toLocaleString (Fin x))"
    unfolding formatValue_def Let_def f_def [symmetric]
    by (simp add: num_ge_def not_less)
  then show ?thesis unfolding f_def .
qed





lemma formatValue_zero:
  "formatValue numToString (Fin 0) fmt =
     (if map_option toLowerCase fmt = Some (str ''currency'') then str ''$0''
      else if map_option toLowerCase fmt = Some (str ''percent'') then str ''0.0%''
      else str ''0'')"
proof -
  define f where "f = map_option toLowerCase fmt"
  have "formatCurrency (Fin 0) = str ''$0''" "formatPercent (toDouble (0 / 100)) = str ''0.0%''"
    "toLocaleString (Fin 0) = str ''0''"
    by (simp_all add: toDouble_zero formatCurrency_def formatPercent_def toLocaleString_def
        intlRound_def shortestDecimal_def percentDigits_def localeDigits_def
        signOf_def roundHalfUp_def group3.simps show_nat.simps pad3_def digit_def str_def)
  then have "(if f = Some (str ''currency'') then formatCurrency (Fin 0)
      else if f = Some (str ''percent'') then formatPercent (toDouble (0 / 100))
      else if 1000000 \<le> (0::rat) then toFixed1 numToString (toDouble (0 / 1000000)) @ str ''M''
      else if 1000 \<le> (0::rat) then toFixed1 numToString (toDouble (0 / 1000)) @ str ''K''
      else toLocaleString (Fin 0)) =
     (if f = Some (str ''currency'') then str ''$0''
      else if f = Some (str ''percent'') then str ''0.0%''
      else str ''0'')"
    by simp
  then show ?thesis unfolding formatValue_Fin f_def .
qed

lemma kpiValue_empty:
  "toLowerCase (calculation d) \<in>
     {str ''sum'', str ''avg'', str ''average'', str ''count'', str ''max'', str ''min''}
   \<Longrightarrow> kpiValue [] d = Some (Fin 0)"
  by (auto simp add: kpiValue_def Let_def calculateSum_def calculateAverage_def
      calculateMax_def calculateMin_def)

text \<open>
  Claim C10, as stated, fails: for the empty record list and the KPI definition of the
  repository's own prompt (\<open>sum\<close> of \<open>revenue\<close>, format \<open>currency\<close>) the value is
  \<open>0\<close> but the formatted value is \<open>"$0"\<close>, not \<open>"0"\<close>.
\<close>

theorem calculateSingleKPI_empty_counterexample:
  "map_option formattedValue
     (calculateSingleKPI intToString []
        \<lparr>name = str ''Total Revenue'', calculation = str ''sum'', column = str ''revenue'',
         format = Some (str ''currency'')\<rparr>) = Some (str ''$0'') \<and>
   str ''$0'' \<noteq> str ''0''"
  by (simp add: calculateSingleKPI_def kpiValue_def calculateSum_def toLowerCase_def
      formatValue_def formatCurrency_def intlRound_def shortestDecimal_def signOf_def
      roundHalfUp_def group3.simps show_nat.simps str_def Let_def)

text \<open>
  Claim C10, amended. For the empty record list, every KPI calculation (\<open>sum\<close>,
  \<open>avg\<close> or \<open>average\<close>, \<open>count\<close>, \<open>max\<close>, \<open>min\<close>, in any letter case) returns a
  KPI whose value is the number \<open>0\<close>, and whose formatted value is that of \<open>0\<close> in
  the format of the definition: \<open>"$0"\<close> for \<open>currency\<close>, \<open>"0.0%"\<close> for \<open>percent\<close>,
  and \<open>"0"\<close> for \<open>number\<close>, for any other format and without a format.
\<close>

theorem calculateSingleKPI_empty:
  "toLowerCase (calculation d) \<in>
     {str ''sum'', str ''avg'', str ''average'', str ''count'', str ''max'', str ''min''}
   \<Longrightarrow>
   calculateSingleKPI numToString [] d =
     Some \<lparr>name = name d, calculation = calculation d, column = column d, format = format d,
           kpi_value = Fin 0,
           formattedValue =
             (if map_option toLowerCase (format d) = Some (str ''currency'') then str ''$0''
              else if map_option toLowerCase (format d) = Some (str ''percent'') then str ''0.0%''
              else str ''0'')\<rparr>"
  by (simp add: calculateSingleKPI_def kpiValue_empty formatValue_zero del: insert_iff)

text \<open>The theorem at the average of a column in the format \<open>number\<close>.\<close>

theorem calculateSingleKPI_empty_witness:
  "toLowerCase (str ''AVG'') \<in>
     {str ''sum'', str ''avg'', str ''average'', str ''count'', str ''max'', str ''min''} \<and>
   calculateSingleKPI intToString []
     \<lparr>name = str ''Mean'', calculation = str ''AVG'', column = str ''revenue'',
      format = Some (str ''number'')\<rparr> =
     Some \<lparr>name = str ''Mean'', calculation = str ''AVG'', column = str ''revenue'',
           format = Some (str ''number''), kpi_value = Fin 0, formattedValue = str ''0''\<rparr>"
proof -
  have h: "toLowerCase (calculation \<lparr>name = str ''Mean'', calculation = str ''AVG'',
             column = str ''revenue'', format = Some (str ''number'')\<rparr>) \<in>
     {str ''sum'', str ''avg'', str ''average'', str ''count'', str ''max'', str ''min''}"
    by (simp add: toLowerCase_def str_def)
  show ?thesis
    using h calculateSingleKPI_empty [OF h, of intToString]
    by (simp add: toLowerCase_def str_def)
qed


section \<open>Properties of the chart preparation\<close>

lemma pushTo_keys: "map fst (pushTo k item gs) = map fst gs"
  by (induction gs) auto

lemma pushTo_map_of:
  "map_of (pushTo k item gs) k' =
     (if k' = k then map_option (\<lambda>rows. rows @ [item]) (map_of gs k) else map_of gs k')"
  by (induction gs) auto

lemma groupStep_map_of:
  assumes "groupStep numToString key gs item = Inr gs'"
  shows "map_of gs' k =
     (if k = groupKey numToString item key
      then (case map_of gs k of Some rows \<Rightarrow> Some (rows @ [item]) | None \<Rightarrow> Some [item])
      else map_of gs k)"
proof (cases "groupKey numToString item key \<in> fst ` set gs")
  case True
  then obtain rows where "map_of gs (groupKey numToString item key) = Some rows"
    by (metis map_of_eq_None_iff not_Some_eq)
  with True assms show ?thesis
    by (auto simp: groupStep_def Let_def pushTo_map_of)
next
  case False
  then have "map_of gs (groupKey numToString item key) = None"
    by (simp add: map_of_eq_None_iff)
  with False assms show ?thesis
    by (auto simp: groupStep_def Let_def map_add_def split: if_splits option.splits)
qed

lemma groupStep_distinct:
  assumes "groupStep numToString key gs item = Inr gs'" "distinct (map fst gs)"
  shows "distinct (map fst gs')"
  using assms by (auto simp: groupStep_def Let_def pushTo_keys split: if_splits)

lemma groupLoop_map_of:
  "groupLoop numToString key gs data = Inr gs' \<Longrightarrow>
   map_of gs' k =
     (case map_of gs k of
        Some rows \<Rightarrow> Some (rows @ filter (\<lambda>i. groupKey numToString i key = k) data)
      | None \<Rightarrow> if \<exists>i\<in>set data. groupKey numToString i key = k
                then Some (filter (\<lambda>i. groupKey numToString i key = k) data) else None)"
proof (induction data arbitrary: gs)
  case Nil
  then show ?case by (auto split: option.splits)
next
  case (Cons item data)
  from Cons.prems obtain gs1 where
    s: "groupStep numToString key gs item = Inr gs1" and
    l: "groupLoop numToString key gs1 data = Inr gs'"
    by (auto split: sum.splits)
  show ?case
    unfolding Cons.IH [OF l] groupStep_map_of [OF s]
    by (auto split: option.splits)
qed

lemma groupLoop_distinct:
  "groupLoop numToString key gs data = Inr gs' \<Longrightarrow> distinct (map fst gs) \<Longrightarrow>
   distinct (map fst gs')"
proof (induction data arbitrary: gs)
  case Nil
  then show ?case by simp
next
  case (Cons item data)
  from Cons.prems obtain gs1 where
    s: "groupStep numToString key gs item = Inr gs1" and
    l: "groupLoop numToString key gs1 data = Inr gs'"
    by (auto split: sum.splits)
  from Cons.IH [OF l groupStep_distinct [OF s Cons.prems(2)]] show ?case .
qed

lemma groupLoop_total:
  "\<forall>i\<in>set data. groupKey numToString i key \<notin> set protoKeys \<Longrightarrow>
   \<exists>gs'. groupLoop numToString key gs data = Inr gs'"
proof (induction data arbitrary: gs)
  case Nil
  then show ?case by simp
next
  case (Cons item data)
  then have "\<exists>gs1. groupStep numToString key gs item = Inr gs1"
    by (simp add: groupStep_def Let_def)
  then obtain gs1 where s: "groupStep numToString key gs item = Inr gs1" ..
  with Cons show ?case by auto
qed




lemma objectEntries_set: "set (objectEntries props) = set props"
  by (auto simp: objectEntries_def)

lemma groupBy_rows:
  assumes "groupBy numToString data key = Inr groups" "(k, rows) \<in> set groups"
  shows "rows = filter (\<lambda>i. groupKey numToString i key = k) data"
proof -
  have d: "distinct (map fst groups)"
    using groupLoop_distinct [of numToString key "[]" data groups] assms(1)
    by (simp add: groupBy_def)
  then have "map_of groups k = Some rows"
    using assms(2) by simp
  with groupLoop_map_of [of numToString key "[]" data groups k] assms(1)
  show ?thesis
    by (auto simp: groupBy_def split: if_splits)
qed





text \<open>
  What \<open>prepareChartData\<close> does when no group key names a member of
  \<open>Object.prototype\<close> and the first measure is not called \<open>__proto__\<close>: it returns
  one data point for each group, at most 20 of them, in descending order of the sum of
  the first measure; each data point carries the sum of every measure over the
  records of its group.
\<close>

lemma set_insertStable: "set (insertStable lt x xs) = insert x (set xs)"
  by (induction xs) auto

lemma set_stableSort: "set (stableSort lt xs) = set xs"
  by (induction xs) (auto simp: stableSort_def set_insertStable)

lemma length_insertStable: "length (insertStable lt x xs) = Suc (length xs)"
  by (induction xs) auto

lemma length_stableSort: "length (stableSort lt xs) = length xs"
  by (induction xs) (auto simp: stableSort_def length_insertStable)

lemma sorted_insertStable:
  assumes "sorted_wrt (\<lambda>a b. \<not> lt b a) xs" "x \<in> S" "set xs \<subseteq> S"
    and asym: "\<forall>a\<in>S. \<forall>b\<in>S. lt a b \<longrightarrow> \<not> lt b a"
    and trans: "\<forall>a\<in>S. \<forall>b\<in>S. \<forall>c\<in>S. \<not> lt b a \<longrightarrow> \<not> lt c b \<longrightarrow> \<not> lt c a"
  shows "sorted_wrt (\<lambda>a b. \<not> lt b a) (insertStable lt x xs)"
  using assms(1,3)
proof (induction xs)
  case Nil
  then show ?case by simp
next
  case (Cons y ys)
  have yS: "y \<in> S" and ysS: "set ys \<subseteq> S" using Cons.prems(2) by simp_all
  have sys: "sorted_wrt (\<lambda>a b. \<not> lt b a) ys" and yys: "\<forall>z\<in>set ys. \<not> lt z y"
    using Cons.prems(1) by simp_all
  show ?case
  proof (cases "lt y x")
    case True
    have ih: "sorted_wrt (\<lambda>a b. \<not> lt b a) (insertStable lt x ys)"
      using Cons.IH [OF sys ysS] .
    have "\<not> lt x y" using True asym yS assms(2) by blast
    then show ?thesis using True ih yys by (simp add: set_insertStable)
  next
    case False
    have "\<forall>z\<in>set ys. \<not> lt z x"
    proof
      fix z assume z: "z \<in> set ys"
      then have "z \<in> S" using ysS by blast
      moreover have "\<not> lt z y" using yys z by blast
      ultimately show "\<not> lt z x" using False trans yS assms(2) by blast
    qed
    then show ?thesis using False sys yys by simp
  qed
qed

lemma sorted_stableSort:
  assumes "set xs \<subseteq> S"
    and asym: "\<forall>a\<in>S. \<forall>b\<in>S. lt a b \<longrightarrow> \<not> lt b a"
    and trans: "\<forall>a\<in>S. \<forall>b\<in>S. \<forall>c\<in>S. \<not> lt b a \<longrightarrow> \<not> lt c b \<longrightarrow> \<not> lt c a"
  shows "sorted_wrt (\<lambda>a b. \<not> lt b a) (stableSort lt xs)"
  using assms(1)
proof (induction xs)
  case Nil
  then show ?case by (simp add: stableSort_def)
next
  case (Cons x xs)
  have ih: "sorted_wrt (\<lambda>a b. \<not> lt b a) (stableSort lt xs)"
    using Cons by simp
  have "sorted_wrt (\<lambda>a b. \<not> lt b a) (insertStable lt x (stableSort lt xs))"
    using Cons.prems by (intro sorted_insertStable [OF ih _ _ asym trans]) (simp_all add: set_stableSort)
  then show ?case by (simp add: stableSort_def)
qed

lemma setNumber_apply:
  "setNumber dp a n m =
     (if a = m \<and> (m \<noteq> str ''__proto__'' \<or> dp m \<noteq> None) then Some (JNum n) else dp m)"
  unfolding setNumber_def by (cases "a = m"; cases "dp m"; cases "m = str ''__proto__''") auto

lemma foldl_setNumber:
  "foldl (\<lambda>dp m. setNumber dp m (g m)) dp ms m =
     (if m \<in> set ms \<and> (m \<noteq> str ''__proto__'' \<or> dp m \<noteq> None) then Some (JNum (g m)) else dp m)"
proof (induction ms arbitrary: dp)
  case Nil
  show ?case by simp
next
  case (Cons a ms)
  have "foldl (\<lambda>dp m. setNumber dp m (g m)) dp (a # ms) m
          = foldl (\<lambda>dp m. setNumber dp m (g m)) (setNumber dp a (g a)) ms m"
    by simp
  also have "\<dots> = (if m \<in> set ms \<and> (m \<noteq> str ''__proto__'' \<or> setNumber dp a (g a) m \<noteq> None)
                    then Some (JNum (g m)) else setNumber dp a (g a) m)"
    by (rule Cons.IH)
  also have "\<dots> = (if m \<in> set (a # ms) \<and> (m \<noteq> str ''__proto__'' \<or> dp m \<noteq> None)
                    then Some (JNum (g m)) else dp m)"
    unfolding setNumber_apply by (cases "a = m"; cases "m \<in> set ms"; cases "dp m"; cases "m = str ''__proto__''") auto
  finally show ?case .
qed

lemma dataPoint_measure:
  "m \<in> set ms \<Longrightarrow> m \<noteq> str ''__proto__'' \<Longrightarrow>
   dataPoint pd ms (k, rows) m = Some (JNum (calculateSum rows m))"
  by (simp add: dataPoint_def foldl_setNumber)

lemma dataPoint_dimension:
  "pd \<notin> set ms \<Longrightarrow> dataPoint pd ms (k, rows) pd = Some (JStr k)"
  by (simp add: dataPoint_def foldl_setNumber)

lemma calculateSum_grid: "numOnGrid (calculateSum rows m)"
proof -
  have "numOnGrid acc \<Longrightarrow>
        numOnGrid (foldl (\<lambda>sum row. (let val = parseFloat (getProp row m)
                           in num_add sum (if isNaN val then Fin 0 else val))) acc rows)" for acc
    by (induction rows arbitrary: acc) (simp_all add: Let_def num_add_grid)
  moreover have "numOnGrid (Fin 0)" by (simp add: numOnGrid_def onGrid_zero)
  ultimately show ?thesis by (simp add: calculateSum_def)
qed

lemma sortValue_dataPoint:
  assumes "pm \<noteq> str ''__proto__''"
  shows "sortValue pm (dataPoint pd (pm # ms) (k, rows)) =
           (if calculateSum rows pm = NaN \<or> calculateSum rows pm = NegZero then Fin 0
            else calculateSum rows pm)"
proof -
  have "dataPoint pd (pm # ms) (k, rows) pm = Some (JNum (calculateSum rows pm))"
    using assms by (intro dataPoint_measure) simp_all
  then show ?thesis
    by (auto simp: sortValue_def getProp_def Let_def)
qed

lemma goesBefore_numeric:
  "sortValue pm a \<noteq> NaN \<Longrightarrow> sortValue pm b \<noteq> NaN \<Longrightarrow>
   numOnGrid (sortValue pm a) \<Longrightarrow> numOnGrid (sortValue pm b) \<Longrightarrow>
   goesBefore pm a b = num_less (sortValue pm b) (sortValue pm a)"
  by (simp add: goesBefore_def num_sub_less_zero)

lemma sorted_numeric:
  assumes "\<forall>p\<in>set ps. sortValue pm p \<noteq> NaN \<and> numOnGrid (sortValue pm p)"
  shows "sorted_wrt (\<lambda>a b. \<not> num_less (sortValue pm a) (sortValue pm b))
           (stableSort (goesBefore pm) ps)"
proof -
  let ?S = "{p. sortValue pm p \<noteq> NaN \<and> numOnGrid (sortValue pm p)}"
  have sub: "set ps \<subseteq> ?S" using assms by blast
  have asym: "\<forall>a\<in>?S. \<forall>b\<in>?S. goesBefore pm a b \<longrightarrow> \<not> goesBefore pm b a"
  proof (intro ballI impI)
    fix a b assume "a \<in> ?S" "b \<in> ?S" "goesBefore pm a b"
    then show "\<not> goesBefore pm b a"
      using num_less_asym [of "sortValue pm b" "sortValue pm a"]
      by (simp add: goesBefore_numeric)
  qed
  have trans: "\<forall>a\<in>?S. \<forall>b\<in>?S. \<forall>c\<in>?S. \<not> goesBefore pm b a \<longrightarrow> \<not> goesBefore pm c b \<longrightarrow>
                 \<not> goesBefore pm c a"
  proof (intro ballI impI)
    fix a b c assume "a \<in> ?S" "b \<in> ?S" "c \<in> ?S" "\<not> goesBefore pm b a" "\<not> goesBefore pm c b"
    then show "\<not> goesBefore pm c a"
      using num_less_negtrans [of "sortValue pm a" "sortValue pm b" "sortValue pm c"]
      by (simp add: goesBefore_numeric)
  qed
  have s: "sorted_wrt (\<lambda>a b. \<not> goesBefore pm b a) (stableSort (goesBefore pm) ps)"
    using sub asym trans by (rule sorted_stableSort)
  show ?thesis
  proof (rule sorted_wrt_mono_rel [OF _ s])
    fix a b assume "a \<in> set (stableSort (goesBefore pm) ps)" "b \<in> set (stableSort (goesBefore pm) ps)"
      "\<not> goesBefore pm b a"
    then show "\<not> num_less (sortValue pm a) (sortValue pm b)"
      using assms by (simp add: set_stableSort goesBefore_numeric)
  qed
qed

lemma length_objectEntries: "length (objectEntries props) = length props"
  by (simp add: objectEntries_def sum_length_filter_compl)

lemma prepareChartData_grouped:
  assumes m: "measures_list cd = Some (pm # ms)" and d: "dimensions_list cd = Some (pd # ds)"
    and ok: "\<forall>i\<in>set data. groupKey numToString i pd \<notin> set protoKeys"
    and pm: "pm \<noteq> str ''__proto__''"
  shows "\<exists>groups ps.
           groupBy numToString data pd = Inr groups \<and>
           prepareChartData numToString data cd = Inr ps \<and>
           length ps = min 20 (length groups) \<and>
           sorted_wrt (\<lambda>a b. \<not> num_less (sortValue pm a) (sortValue pm b)) ps \<and>
           (\<forall>p\<in>set ps. \<exists>k rows.
               (k, rows) \<in> set groups \<and>
               rows = filter (\<lambda>i. groupKey numToString i pd = k) data \<and>
               p = dataPoint pd (pm # ms) (k, rows) \<and>
               (\<forall>m\<in>set (pm # ms). m \<noteq> str ''__proto__'' \<longrightarrow>
                  p m = Some (JNum (calculateSum rows m))))"
proof -
  from ok obtain groups where g: "groupBy numToString data pd = Inr groups"
    unfolding groupBy_def using groupLoop_total by blast
  let ?points = "map (dataPoint pd (pm # ms)) (objectEntries groups)"
  let ?ps = "take 20 (stableSort (goesBefore pm) ?points)"
  have p: "prepareChartData numToString data cd = Inr ?ps"
    using m d g by (simp add: prepareChartData_def Let_def)
  have num: "\<forall>p\<in>set ?points. sortValue pm p \<noteq> NaN \<and> numOnGrid (sortValue pm p)"
  proof
    fix p assume "p \<in> set ?points"
    then obtain k rows where "p = dataPoint pd (pm # ms) (k, rows)" by auto
    then have "sortValue pm p =
        (if calculateSum rows pm = NaN \<or> calculateSum rows pm = NegZero then Fin 0
         else calculateSum rows pm)"
      using pm by (simp add: sortValue_dataPoint)
    then show "sortValue pm p \<noteq> NaN \<and> numOnGrid (sortValue pm p)"
      using calculateSum_grid [of rows pm]
      by (auto simp: numOnGrid_def onGrid_zero split: if_splits)
  qed
  have len: "length ?ps = min 20 (length groups)"
    by (simp add: length_stableSort length_objectEntries min.commute)
  have srt: "sorted_wrt (\<lambda>a b. \<not> num_less (sortValue pm a) (sortValue pm b)) ?ps"
    using sorted_numeric [OF num] by (rule sorted_wrt_take)
  have pts: "\<forall>p\<in>set ?ps. \<exists>k rows.
               (k, rows) \<in> set groups \<and>
               rows = filter (\<lambda>i. groupKey numToString i pd = k) data \<and>
               p = dataPoint pd (pm # ms) (k, rows) \<and>
               (\<forall>m\<in>set (pm # ms). m \<noteq> str ''__proto__'' \<longrightarrow>
                  p m = Some (JNum (calculateSum rows m)))"
  proof
    fix p assume "p \<in> set ?ps"
    then have "p \<in> set (stableSort (goesBefore pm) ?points)"
      by (rule in_set_takeD)
    then have "p \<in> set ?points"
      by (simp only: set_stableSort)
    then obtain k rows where kr: "(k, rows) \<in> set groups" "p = dataPoint pd (pm # ms) (k, rows)"
      by (auto simp: objectEntries_set)
    moreover have "rows = filter (\<lambda>i. groupKey numToString i pd = k) data"
      using groupBy_rows [OF g kr(1)] .
    moreover have "\<forall>m\<in>set (pm # ms). m \<noteq> str ''__proto__'' \<longrightarrow>
                  p m = Some (JNum (calculateSum rows m))"
      unfolding kr(2) by (intro ballI impI dataPoint_measure)
    ultimately show "\<exists>k rows.
               (k, rows) \<in> set groups \<and>
               rows = filter (\<lambda>i. groupKey numToString i pd = k) data \<and>
               p = dataPoint pd (pm # ms) (k, rows) \<and>
               (\<forall>m\<in>set (pm # ms). m \<noteq> str ''__proto__'' \<longrightarrow>
                  p m = Some (JNum (calculateSum rows m)))"
      by (intro exI conjI)
  qed
  show ?thesis
    by (intro exI conjI) (rule g p len srt pts)+
qed

text \<open>The example of the specification: two groups, \<open>Q1\<close> with 150 before \<open>Q2\<close> with 80.\<close>

lemma prepareChartData_example:
  "prepareChartData intToString
     [[str ''cat'' \<mapsto> JStr (str ''Q1''), str ''rev'' \<mapsto> JNum (Fin 100)],
      [str ''cat'' \<mapsto> JStr (str ''Q1''), str ''rev'' \<mapsto> JNum (Fin 50)],
      [str ''cat'' \<mapsto> JStr (str ''Q2''), str ''rev'' \<mapsto> JNum (Fin 80)]]
     \<lparr>title = str ''Revenue'', chartType = str ''bar'', measures_list = Some [str ''rev''],
      dimensions_list = Some [str ''cat'']\<rparr>
   = Inr [[str ''cat'' \<mapsto> JStr (str ''Q1''), str ''rev'' \<mapsto> JNum (Fin 150)],
          [str ''cat'' \<mapsto> JStr (str ''Q2''), str ''rev'' \<mapsto> JNum (Fin 80)]]"
  by (simp add: Let_def prepareChartData_def groupBy_def groupStep_def groupKey_def getProp_def
      str_def protoKeys_def objectEntries_def isArrayIndex_def isDigit_def dataPoint_def
      setNumber_def calculateSum_def stableSort_def goesBefore_def sortValue_def num_sub_def
      toDouble_ints)

text \<open>
  Claim C5 fails on the code where a first-dimension value names a member of
  \<open>Object.prototype\<close>. For the record \<open>{cat: "constructor", rev: 100}\<close>, grouped by
  \<open>cat\<close>, the accumulator \<open>{}\<close> of \<open>groupBy\<close> already reads a function at the key
  \<open>constructor\<close>: no array is created, \<open>push\<close> is not a function, and
  \<open>prepareChartData\<close> throws a TypeError instead of returning one data point.
\<close>

theorem prepareChartData_inherited_key:
  "prepareChartData intToString
     [[str ''cat'' \<mapsto> JStr (str ''constructor''), str ''rev'' \<mapsto> JNum (Fin 100)]]
     \<lparr>title = str ''Revenue'', chartType = str ''bar'', measures_list = Some [str ''rev''],
      dimensions_list = Some [str ''cat'']\<rparr>
   = Inl (Error (str ''groups[group].push is not a function''))"
  by (simp add: prepareChartData_def groupBy_def groupStep_def groupKey_def getProp_def
      str_def protoKeys_def)


section \<open>Properties of the response decoder and the structured extractor\<close>

text \<open>
  Every parser consumes at least one character of its text. Hence the tests on the
  lengths in \<open>parse_elements\<close> and \<open>parse_members\<close>, which compare a rest with
  the text, never fail.
\<close>

lemma parse_chars_shorter: "parse_chars s = Some (x, r) \<Longrightarrow> length r < length s"
proof (induction s arbitrary: x r rule: length_induct)
  case (1 s)
  have ih: "\<And>t y q. length t < length s \<Longrightarrow> parse_chars t = Some (y, q) \<Longrightarrow> length q < length t"
    using "1.IH" by blast
  show ?case
  proof (cases s)
    case Nil
    with "1.prems" show ?thesis by simp
  next
    case (Cons c cs)
    from "1.prems" show ?thesis
      unfolding Cons
      apply (simp split: if_splits list.splits option.splits prod.splits)
      using ih [unfolded Cons] apply force
      using ih [unfolded Cons] apply force
      using ih [unfolded Cons] apply force
      done
  qed
qed

lemma dropWhile_shorter: "takeWhile P xs \<noteq> [] \<Longrightarrow> length (dropWhile P xs) < length xs"
  by (cases xs) (auto simp: less_Suc_eq_le length_dropWhile_le split: if_splits)

lemma parse_number_shorter:
  assumes "parse_number s = Some (n, r)"
  shows "length r < length s"
proof -
  define u where "u = (case s of [] \<Rightarrow> s | c # t \<Rightarrow> if c = 0x2D then t else s)"
  define neg where "neg = (case s of [] \<Rightarrow> False | c # t \<Rightarrow> c = 0x2D)"
  have nu: "(case s of [] \<Rightarrow> (False, s) | c # r \<Rightarrow> if c = 0x2D then (True, r) else (False, s)) = (neg, u)"
    by (auto simp: u_def neg_def split: list.splits)
  have us: "length u \<le> length s"
    by (auto simp: u_def split: list.splits)
  define r1 where "r1 = dropWhile isDigit u"
  define fr where "fr = (case r1 of
                    [] \<Rightarrow> Some ([], r1)
                  | c # r \<Rightarrow>
                      if c = 0x2E
                      then (if takeWhile isDigit r = [] then None
                            else Some (takeWhile isDigit r, dropWhile isDigit r))
                      else Some ([], r1))"
  have ip: "takeWhile isDigit u \<noteq> []" and
    rest: "(case fr of
              None \<Rightarrow> None
            | Some (fp, r2) \<Rightarrow>
                (case (case r2 of
                         [] \<Rightarrow> Some (0, r2)
                       | c # r \<Rightarrow>
                           if c = 0x65 \<or> c = 0x45
                           then (let (eneg, r') =
                                       (case r of
                                          [] \<Rightarrow> (False, r)
                                        | d # r'' \<Rightarrow> if d = 0x2D then (True, r'')
                                                     else if d = 0x2B then (False, r'')
                                                     else (False, r))
                                 in if takeWhile isDigit r' = [] then None
                                    else Some (if eneg then - int (digitsValue (takeWhile isDigit r'))
                                               else int (digitsValue (takeWhile isDigit r')),
                                               dropWhile isDigit r'))
                           else Some (0, r2)) of
                   None \<Rightarrow> None
                 | Some (e, r3) \<Rightarrow>
                     (let v = scale10 (of_nat (digitsValue (takeWhile isDigit u @ fp))) (e - int (length fp))
                      in Some (if neg then num_neg (toDouble v) else toDouble v, r3)))) = Some (n, r)"
    using assms unfolding parse_number_def nu fr_def r1_def
    by (simp_all add: Let_def split: if_splits)
  have r1u: "length r1 < length u"
    unfolding r1_def using ip by (rule dropWhile_shorter)
  from rest obtain fp r2 where fr2: "fr = Some (fp, r2)"
    by (cases fr) auto
  have r2r1: "length r2 \<le> length r1"
    using fr2 unfolding fr_def
    by (auto split: list.splits if_splits intro: le_SucI length_dropWhile_le)
  from rest fr2 have "length r \<le> length r2"
    by (auto simp: Let_def split: list.splits if_splits prod.splits
        intro: le_SucI length_dropWhile_le)
  with r2r1 r1u us show ?thesis by simp
qed

lemma skip_ws_Cons_shorter: "skip_ws s = c # cs \<Longrightarrow> length cs < length s"
  unfolding skip_ws_def by (drule dropWhile_eq_Cons_length) simp

lemma parse_shorter:
  "(\<forall>v r. parse_value s = Some (v, r) \<longrightarrow> length r < length s) \<and>
   (\<forall>vs r. parse_elements s = Some (vs, r) \<longrightarrow> length r < length s) \<and>
   (\<forall>kvs r. parse_members s = Some (kvs, r) \<longrightarrow> length r < length s)"
proof (induction s rule: length_induct)
  case (1 s)
  have ihv: "\<And>t v r. length t < length s \<Longrightarrow> parse_value t = Some (v, r) \<Longrightarrow> length r < length t"
    and ihe: "\<And>t vs r. length t < length s \<Longrightarrow> parse_elements t = Some (vs, r) \<Longrightarrow> length r < length t"
    and ihm: "\<And>t kvs r. length t < length s \<Longrightarrow> parse_members t = Some (kvs, r) \<Longrightarrow> length r < length t"
    using "1.IH" by blast+
  have vcase: "length r < length s" if p: "parse_value s = Some (v, r)" for v r
  proof -
    from p obtain c cs where sk: "skip_ws s = c # cs"
      by (subst (asm) parse_value.simps) (auto split: list.splits)
    have cs: "length cs < length s" using sk by (rule skip_ws_Cons_shorter)
    note p' = p [unfolded parse_value.simps [of s] sk list.case]
    consider (obj) "c = 0x7B" | (arr) "c \<noteq> 0x7B" "c = 0x5B" | (strg) "c \<noteq> 0x7B" "c \<noteq> 0x5B" "c = 0x22"
      | (other) "c \<noteq> 0x7B" "c \<noteq> 0x5B" "c \<noteq> 0x22" by blast
    then show ?thesis
    proof cases
      case obj
      from p' obj obtain d ds where sk2: "skip_ws cs = d # ds"
        by (auto split: list.splits)
      have ds: "length ds < length cs" using sk2 by (rule skip_ws_Cons_shorter)
      show ?thesis
      proof (cases "d = 0x7D")
        case True
        with p' obj sk2 have "r = ds" by simp
        with ds cs show ?thesis by simp
      next
        case False
        with p' obj sk2 obtain members where "parse_members (d # ds) = Some (members, r)"
          by (auto split: option.splits)
        from ihm [OF _ this] ds cs show ?thesis by simp
      qed
    next
      case arr
      from p' arr obtain d ds where sk2: "skip_ws cs = d # ds"
        by (auto split: list.splits)
      have ds: "length ds < length cs" using sk2 by (rule skip_ws_Cons_shorter)
      show ?thesis
      proof (cases "d = 0x5D")
        case True
        with p' arr sk2 have "r = ds" by simp
        with ds cs show ?thesis by simp
      next
        case False
        with p' arr sk2 obtain elements where "parse_elements (d # ds) = Some (elements, r)"
          by (auto split: option.splits)
        from ihe [OF _ this] ds cs show ?thesis by simp
      qed
    next
      case strg
      with p' obtain chars where "parse_chars cs = Some (chars, r)"
        by (auto split: option.splits)
      from parse_chars_shorter [OF this] cs show ?thesis by simp
    next
      case other
      have le: "length (c # cs) \<le> length s"
        using cs by simp
      from p' other have
        "r = drop 4 (c # cs) \<or> r = drop 5 (c # cs) \<or> (\<exists>n. parse_number (c # cs) = Some (n, r))"
        by (auto split: if_splits option.splits)
      then show ?thesis
      proof (elim disjE exE)
        assume "r = drop 4 (c # cs)" with le show ?thesis by simp
      next
        assume "r = drop 5 (c # cs)" with le show ?thesis by simp
      next
        fix n assume "parse_number (c # cs) = Some (n, r)"
        from parse_number_shorter [OF this] le show ?thesis by simp
      qed
    qed
  qed
  have elements: "length r < length s" if p: "parse_elements s = Some (vs, r)" for vs r
  proof -
    from p obtain v rest where pv: "parse_value s = Some (v, rest)"
      by (subst (asm) parse_elements.simps) (auto split: option.splits)
    have rest: "length rest < length s" using pv by (rule vcase)
    note p' = p [unfolded parse_elements.simps [of s] pv option.case prod.case]
    from p' obtain c cs where sk: "skip_ws rest = c # cs"
      by (auto split: list.splits)
    have cs: "length cs < length rest" using sk by (rule skip_ws_Cons_shorter)
    show ?thesis
    proof (cases "c = 0x5D")
      case True
      with p' sk have "r = cs" by simp
      with cs rest show ?thesis by simp
    next
      case False
      with p' sk obtain vs' where "parse_elements cs = Some (vs', r)"
        by (auto split: if_splits option.splits)
      from ihe [OF _ this] cs rest show ?thesis by simp
    qed
  qed
  have members: "length r < length s" if p: "parse_members s = Some (kvs, r)" for kvs r
  proof -
    from p obtain q cs where sk: "skip_ws s = q # cs"
      by (subst (asm) parse_members.simps) (auto split: list.splits)
    have cs: "length cs < length s" using sk by (rule skip_ws_Cons_shorter)
    note p' = p [unfolded parse_members.simps [of s] sk list.case]
    from p' obtain k r0 where q: "q = 0x22" and pc: "parse_chars cs = Some (k, r0)"
      by (auto split: if_splits option.splits)
    have r0: "length r0 < length cs" using pc by (rule parse_chars_shorter)
    from p' q pc obtain c r1 where sk1: "skip_ws r0 = c # r1"
      by (auto split: list.splits)
    have r1: "length r1 < length r0" using sk1 by (rule skip_ws_Cons_shorter)
    from p' q pc sk1 obtain v r2 where pv: "parse_value r1 = Some (v, r2)"
      by (auto split: if_splits option.splits)
    have r2: "length r2 < length r1"
      using ihv [OF _ pv] r1 r0 cs by simp
    from p' q pc sk1 pv obtain d r3 where sk3: "skip_ws r2 = d # r3"
      by (auto split: if_splits list.splits)
    have r3: "length r3 < length r2" using sk3 by (rule skip_ws_Cons_shorter)
    show ?thesis
    proof (cases "d = 0x7D")
      case True
      with p' q pc sk1 pv sk3 have "r = r3" by (auto split: if_splits)
      with r3 r2 r1 r0 cs show ?thesis by simp
    next
      case False
      with p' q pc sk1 pv sk3 obtain kvs' where "parse_members r3 = Some (kvs', r)"
        by (auto split: if_splits option.splits)
      from ihm [OF _ this] r3 r2 r1 r0 cs show ?thesis by simp
    qed
  qed
  from vcase elements members show ?case by blast
qed

lemma starts_with_append: "starts_with (a @ b) s \<Longrightarrow> starts_with a s"
  by (induction a s rule: starts_with.induct) auto

lemma str_includes_append: "str_includes (a @ b) s \<Longrightarrow> str_includes a s"
  by (induction s) (auto dest: starts_with_append)

lemma removeFence_absent: "\<not> str_includes fence s \<Longrightarrow> removeFence fence s = s"
  by (induction s) (auto simp: removeFence.simps)

lemma indexOf_hd: "s \<noteq> [] \<Longrightarrow> hd s = c \<Longrightarrow> indexOf c s = Some 0"
  by (cases s) auto

lemma lastIndexOf_last: "s \<noteq> [] \<Longrightarrow> last s = c \<Longrightarrow> lastIndexOf c s = Some (length s - 1)"
  by (simp add: lastIndexOf_def indexOf_hd hd_rev)

lemma cleanResponse_braced:
  assumes "s \<noteq> []" "hd s = 0x7B" "last s = 0x7D" "\<not> str_includes (str ''```'') s"
  shows "cleanResponse s = s"
proof -
  have t: "trim s = s"
    using assms(1-3) by (intro trim_id) (simp_all add: isWhiteSpace_def)
  have "str ''```json'' = str ''```'' @ str ''json''"
    by (simp add: str_def)
  then have "\<not> str_includes (str ''```json'') s"
    using assms(4) str_includes_append by metis
  then have f1: "removeFence (str ''```json'') s = s"
    by (rule removeFence_absent)
  have f2: "removeFence (str ''```'') s = s"
    using assms(4) by (rule removeFence_absent)
  have i: "indexOf 0x7B s = Some 0"
    using assms(1,2) by (rule indexOf_hd)
  have l: "lastIndexOf 0x7D s = Some (length s - 1)"
    using assms(1,3) by (rule lastIndexOf_last)
  have "substring s 0 (length s - 1 + 1) = s"
    using assms(1) by (simp add: substring_def)
  then show ?thesis
    by (simp add: cleanResponse_def t f1 f2 i l)
qed

lemma stringify_obj_braced:
  "JSON_stringify nts (JObj kvs) \<noteq> [] \<and> hd (JSON_stringify nts (JObj kvs)) = 0x7B \<and>
   last (JSON_stringify nts (JObj kvs)) = 0x7D"
  by simp

lemmas json_eval =
  JSON_parse_def parse_value.simps parse_members.simps parse_elements.simps skip_ws_def
  isJsonWs_def str_def hex4_def radixDigit_def objectOf_def objectEntries_def isArrayIndex_def
  isDigit_def parse_number_def digitsValue_def scale10_def escapeChar_def

lemmas clean_eval =
  cleanResponse_def trim_def isWhiteSpace_def removeFence.simps lastIndexOf_def substring_def

lemmas stringify_eval =
  quote_def quoteChar_def isHighSurrogate_def isLowSurrogate_def intToString_def signOf_def
  show_nat.simps

text \<open>
  Claim C8, as stated, fails. The decoder produces the object \<open>{a: "```"}\<close> from a
  response that writes the first backtick as \<open>\\u0060\<close>. The canonical
  serialization of this object has the three backticks in it; decoding it removes
  them as a fence and returns \<open>{a: ""}\<close>, another object.
\<close>

theorem parseJSONResponse_idempotence_counterexample:
  "parseJSONResponse endOfInputMessage (Some escapedFenceText) = Inr fenceObject \<and>
   JSON_stringify intToString fenceObject = fenceObjectText \<and>
   parseJSONResponse endOfInputMessage (Some fenceObjectText) = Inr (JObj [(str ''a'', JStr [])]) \<and>
   JObj [(str ''a'', JStr [])] \<noteq> fenceObject"
  by (simp add: parseJSONResponse_def escapedFenceText_def fenceObject_def fenceObjectText_def
      clean_eval json_eval stringify_eval)

text \<open>
  Claim C8, amended. For every object whose canonical serialization contains no three
  backticks in a row, trimming, fence removal and the cut from the first \<open>{\<close> to the
  last \<open>}\<close> leave the serialization as it is, so the decoder returns on it what
  \<open>JSON.parse\<close> returns, or fails as \<open>JSON.parse\<close> fails; where \<open>JSON.parse\<close> maps
  the serialization back to the object, the decoder returns the object.
\<close>

theorem parseJSONResponse_canonical:
  "\<not> str_includes (str ''```'') (JSON_stringify numToString (JObj kvs)) \<Longrightarrow>
   cleanResponse (JSON_stringify numToString (JObj kvs)) = JSON_stringify numToString (JObj kvs) \<and>
   parseJSONResponse syntaxMessage (Some (JSON_stringify numToString (JObj kvs))) =
     (case JSON_parse (JSON_stringify numToString (JObj kvs)) of
        Some v \<Rightarrow> Inr v
      | None \<Rightarrow> Inl (Error (str ''Invalid JSON response from AI: '' @
                            syntaxMessage (JSON_stringify numToString (JObj kvs))))) \<and>
   (JSON_parse (JSON_stringify numToString (JObj kvs)) = Some (JObj kvs) \<longrightarrow>
      parseJSONResponse syntaxMessage (Some (JSON_stringify numToString (JObj kvs))) = Inr (JObj kvs))"
proof -
  assume nf: "\<not> str_includes (str ''```'') (JSON_stringify numToString (JObj kvs))"
  define s where "s = JSON_stringify numToString (JObj kvs)"
  have b: "s \<noteq> []" "hd s = 0x7B" "last s = 0x7D"
    by (simp_all add: s_def)
  have c: "cleanResponse s = s"
    using b nf unfolding s_def [symmetric] by (rule cleanResponse_braced)
  have "cleanResponse s = s \<and>
     parseJSONResponse syntaxMessage (Some s) =
       (case JSON_parse s of
          Some v \<Rightarrow> Inr v
        | None \<Rightarrow> Inl (Error (str ''Invalid JSON response from AI: '' @ syntaxMessage s))) \<and>
     (JSON_parse s = Some (JObj kvs) \<longrightarrow> parseJSONResponse syntaxMessage (Some s) = Inr (JObj kvs))"
    by (simp add: parseJSONResponse_def c split: option.splits)
  then show ?thesis
    unfolding s_def .
qed

text \<open>The theorem at the object \<open>{total: 42, unit: "USD"}\<close>.\<close>

theorem parseJSONResponse_canonical_witness:
  "\<not> str_includes (str ''```'') (JSON_stringify intToString plainObject) \<and>
   JSON_parse (JSON_stringify intToString plainObject) = Some plainObject \<and>
   parseJSONResponse endOfInputMessage (Some (JSON_stringify intToString plainObject)) = Inr plainObject"
proof -
  have s: "JSON_stringify intToString plainObject =
      [0x7B, 0x22] @ str ''total'' @ [0x22, 0x3A] @ str ''42'' @ [0x2C, 0x22] @ str ''unit''
      @ [0x22, 0x3A, 0x22] @ str ''USD'' @ [0x22, 0x7D]"
    by (simp add: plainObject_def stringify_eval str_def)
  have h: "\<not> str_includes (str ''```'') (JSON_stringify intToString plainObject)"
    unfolding s by (simp add: str_def)
  have p: "JSON_parse (JSON_stringify intToString plainObject) = Some plainObject"
    unfolding s by (simp add: plainObject_def json_eval toDouble_ints)
  show ?thesis
    using parseJSONResponse_canonical [of intToString "[(str ''total'', JNum (Fin 42)), (str ''unit'', JStr (str ''USD''))]" endOfInputMessage] h p
    by (simp add: plainObject_def)
qed

lemma validateExtraction_cases:
  "result \<noteq> JNull \<Longrightarrow>
   validateExtraction n result =
     (if \<exists>xs. resultData result = Inr (Val (JArr xs)) \<and> n \<le> length xs then Inr result
      else Inl (Error (str ''Insufficient data extracted for dashboard creation'')))"
proof -
  assume nn: "result \<noteq> JNull"
  then obtain d where d: "resultData result = Inr d"
    by (cases result) (auto simp: resultData_def)
  show ?thesis
  proof (cases "\<exists>xs. d = Val (JArr xs)")
    case True
    then obtain xs where "d = Val (JArr xs)" by blast
    with d show ?thesis by (auto simp: validateExtraction_def)
  next
    case False
    then have "\<not> isArray d"
      by (cases d rule: isArray.cases) auto
    with d False show ?thesis by (auto simp: validateExtraction_def)
  qed
qed

lemma validateExtraction_null:
  "validateExtraction n JNull = Inl (Error (str ''Cannot read properties of null (reading 'data')''))"
  by (simp add: validateExtraction_def resultData_def)

lemma extractionFailed_insufficient:
  "extractionFailed (Error (str ''Insufficient data extracted for dashboard creation'')) = insufficientData"
  by (simp add: extractionFailed_def insufficientData_def str_def)

lemma extractionFailed_eq_insufficient:
  "extractionFailed (Error m) = insufficientData \<longleftrightarrow> m = str ''Insufficient data extracted for dashboard creation''"
  by (auto simp add: extractionFailed_def insufficientData_def str_def)

lemma callAI_catch_not_insufficient:
  "callAI_catch t \<noteq> Error (str ''Insufficient data extracted for dashboard creation'')"
  by (auto simp: callAI_catch_def str_def split: thrown.splits option.splits prod.splits)

lemma callAI_error_not_insufficient:
  "callAI post prompt maxTokens temperature issued = (Inl e, issued') \<Longrightarrow>
   e \<noteq> Error (str ''Insufficient data extracted for dashboard creation'')"
  using callAI_catch_not_insufficient
  by (auto simp: callAI_def Let_def split: if_splits axios_outcome.splits response_body.splits)

lemma parseJSONResponse_error_not_insufficient:
  "parseJSONResponse syntaxMessage response = Inl e \<Longrightarrow>
   e \<noteq> Error (str ''Insufficient data extracted for dashboard creation'')"
  by (auto simp: parseJSONResponse_def str_def split: option.splits)

lemma chunk_len: "length (chunkedPrompt ins t) = 804 + length (join (str '', '') ins) + length t"
  by (simp add: chunkedPrompt_def jsonShapeHead_def QUOTES_def str_def)

lemma basic_len: "length (basicPrompt ins t) = 866 + length (join (str '', '') ins) + min (length t) 6000 + (if length t > 6000 then 14 else 0)"
  by (simp add: basicPrompt_def jsonShapeHead_def QUOTES_def str_def substring_def)


text \<open>
  What both extractors do with a payload other than \<open>null\<close> once the response is
  decoded: the payload is returned when its \<open>data\<close> is an array of at least the
  minimum length, and the insufficient-data error is raised otherwise. This error
  differs from every error of the gateway and of the decoder.
\<close>

lemma extractStructuredDataWithChunking_validation:
  assumes "preprocessLargeText post isNum scoreFn text issued = ((s, processed), issued1)"
    and "callAI post (chunkedPrompt ins processed) 2000 (1 / 10) issued1 = (Inr response, issued2)"
    and "parseJSONResponse syntaxMessage response = Inr result"
    and "result \<noteq> JNull"
  shows "extractStructuredDataWithChunking post isNum scoreFn syntaxMessage text (Some ins) issued =
           (if \<exists>xs. resultData result = Inr (Val (JArr xs)) \<and> 2 \<le> length xs then Inr result
            else Inl insufficientData, issued2)"
  using assms
  by (simp add: extractStructuredDataWithChunking_def validateExtraction_cases
      extractionFailed_insufficient)

lemma extractStructuredData_validation:
  assumes "callAI_basic post (basicPrompt ins text) 2000 issued = (Inr response, issued1)"
    and "parseJSONResponse_basic syntaxMessage response = Inr result"
    and "result \<noteq> JNull"
  shows "extractStructuredData post syntaxMessage text (Some ins) issued =
           (if \<exists>xs. resultData result = Inr (Val (JArr xs)) \<and> 3 \<le> length xs then Inr result
            else Inl insufficientData, issued1)"
  using assms
  by (simp add: extractStructuredData_def validateExtraction_cases
      extractionFailed_insufficient)

lemma extractStructuredDataWithChunking_other_failures:
  assumes "preprocessLargeText post isNum scoreFn text issued = ((s, processed), issued1)"
    and "callAI post (chunkedPrompt ins processed) 2000 (1 / 10) issued1 = (Inl e, issued2) \<or>
         callAI post (chunkedPrompt ins processed) 2000 (1 / 10) issued1 = (Inr response, issued2) \<and>
         parseJSONResponse syntaxMessage response = Inl e"
  shows "extractStructuredDataWithChunking post isNum scoreFn syntaxMessage text (Some ins) issued =
           (Inl (extractionFailed e), issued2) \<and> extractionFailed e \<noteq> insufficientData"
proof -
  have ne: "e \<noteq> Error (str ''Insufficient data extracted for dashboard creation'')"
    using assms(2) callAI_error_not_insufficient parseJSONResponse_error_not_insufficient
    by blast
  obtain m where m: "e = Error m" by (cases e)
  with ne have "extractionFailed e \<noteq> insufficientData"
    by (simp add: extractionFailed_eq_insufficient)
  moreover have "extractStructuredDataWithChunking post isNum scoreFn syntaxMessage text (Some ins) issued =
           (Inl (extractionFailed e), issued2)"
    using assms by (auto simp: extractStructuredDataWithChunking_def)
  ultimately show ?thesis by simp
qed

text \<open>
  Claim C7 fails on the code at the payload \<open>null\<close>. The response \<open>null\<close> decodes
  successfully, to \<open>null\<close>, which has no \<open>data\<close>; the test \<open>!result.data\<close> then
  throws a TypeError, and the extractor raises it under its prefix in place of the
  insufficient-data error. The same holds for \<open>extractStructuredData\<close>, whose test
  is the same.
\<close>

theorem extractStructuredDataWithChunking_null_payload:
  "extractStructuredDataWithChunking nullResponder isNum scoreFn syntaxMessage
      (str ''Q1 100'') (Some [str ''revenue data'']) []
   = (Inl (Error (str ''Failed to extract structured data: Cannot read properties of null (reading 'data')'')),
      [\<lparr>req_content = chunkedPrompt [str ''revenue data''] (str ''Q1 100''),
        req_max_tokens = 2000, req_temperature = 1 / 10\<rparr>])"
proof -
  have pre: "preprocessLargeText nullResponder isNum scoreFn (str ''Q1 100'') [] = ((AsIs, str ''Q1 100''), [])"
    by (simp add: preprocessLargeText_def estimateTokens_def safeTextLimit_def str_def)
  have small: "\<not> maxInputTokens < estimateTokens (chunkedPrompt [str ''revenue data''] (str ''Q1 100''))"
    by (simp add: estimateTokens_def maxInputTokens_def chunk_len str_def)
  have ai: "callAI nullResponder (chunkedPrompt [str ''revenue data''] (str ''Q1 100'')) 2000 (1 / 10) []
      = (Inr (Some (str ''null'')), [\<lparr>req_content = chunkedPrompt [str ''revenue data''] (str ''Q1 100''),
        req_max_tokens = 2000, req_temperature = 1 / 10\<rparr>])"
    using small by (simp add: callAI_def Let_def nullResponder_def)
  have dec: "parseJSONResponse syntaxMessage (Some (str ''null'')) = Inr JNull"
    by (simp add: parseJSONResponse_def clean_eval json_eval)
  have w: "extractionFailed (Error (str ''Cannot read properties of null (reading 'data')''))
      = Error (str ''Failed to extract structured data: Cannot read properties of null (reading 'data')'')"
    by (simp add: extractionFailed_def str_def)
  show ?thesis
    by (simp add: extractStructuredDataWithChunking_def pre ai dec validateExtraction_null w)
qed

end
